theory Spec2Isabelle
  imports Complex_Main "HOL-Library.AList" "HOL-Library.Sublist"
begin

section \<open>Python primitives used by the memory system\<close>

text \<open>
  Python strings are modelled as \<open>string\<close>; one \<open>char\<close> stands for one code point
  (code points above 255 are not represented).  \<open>str.rstrip()\<close> and \<open>str.strip()\<close>
  without argument remove the characters for which \<open>str.isspace\<close> holds; below 256
  these are the code points 9-13, 28-32, 133 and 160.
\<close>

definition py_isspace :: "char \<Rightarrow> bool" where
  "py_isspace c = (of_char c \<in> {9, 10, 11, 12, 13, 28, 29, 30, 31, 32, 133, 160 :: nat})"

definition rstrip :: "string \<Rightarrow> string" where
  "rstrip s = rev (dropWhile py_isspace (rev s))"

definition strip :: "string \<Rightarrow> string" where
  "strip s = rstrip (dropWhile py_isspace s)"

text \<open>
  The slice \<open>xs[:n]\<close>: a negative \<open>n\<close> counts from the end, and a bound outside the
  list is clamped.  The slice \<open>xs[start:]\<close> likewise.
\<close>

definition py_slice_to :: "'a list \<Rightarrow> int \<Rightarrow> 'a list" where
  "py_slice_to xs n = (if 0 \<le> n then take (nat n) xs else take (nat (int (length xs) + n)) xs)"

definition py_slice_from :: "'a list \<Rightarrow> int \<Rightarrow> 'a list" where
  "py_slice_from xs start =
     (if 0 \<le> start then drop (nat start) xs else drop (nat (int (length xs) + start)) xs)"

text \<open>
  \<open>max(x :: xs, key=len)\<close> keeps the first element of greatest length: the running
  maximum is replaced only by a strictly longer element.
\<close>

definition py_max_len :: "string \<Rightarrow> string list \<Rightarrow> string" where
  "py_max_len x xs = foldl (\<lambda>best y. if length best < length y then y else best) x xs"

text \<open>\<open>sep.join(xs)\<close>.\<close>

fun py_join :: "string \<Rightarrow> string list \<Rightarrow> string" where
  "py_join sep [] = []"
| "py_join sep [x] = x"
| "py_join sep (x # y # ys) = x @ sep @ py_join sep (y # ys)"


section \<open>memory\_summarizer.py\<close>

subsection \<open>RuleBasedSummarizer\<close>

definition RuleBasedSummarizer_summarize :: "string list \<Rightarrow> int \<Rightarrow> string" where
  "RuleBasedSummarizer_summarize texts max_length =
     (case texts of
        [] \<Rightarrow> []
      | t # ts \<Rightarrow>
          (let longest = py_max_len t ts in
           if int (length longest) \<le> max_length then longest
           else
             (let summary = rstrip (py_slice_to longest max_length) in
              if length summary < length longest then summary @ ''...'' else summary)))"

subsection \<open>LLMSummarizer and MiniLMSummarizer\<close>

text \<open>
  The external services are parameters of the model.  A client is \<open>None\<close> when the
  package could not be imported; a call of the client yields \<open>None\<close> when it raises
  and the raw response text otherwise.
\<close>

type_synonym llm_client = "string \<Rightarrow> int \<Rightarrow> string option"

datatype strategy =
    RuleBasedSummarizer
  | LLMSummarizer "llm_client option"
  | MiniLMSummarizer "llm_client option"

definition LLMSummarizer_summarize :: "llm_client option \<Rightarrow> string list \<Rightarrow> int \<Rightarrow> string" where
  "LLMSummarizer_summarize llm_client texts max_length =
     (case llm_client of
        None \<Rightarrow> RuleBasedSummarizer_summarize texts max_length
      | Some create \<Rightarrow>
          if texts = [] then RuleBasedSummarizer_summarize texts max_length
          else
            (case create (py_join [CHR 0x0A] texts) max_length of
               Some content \<Rightarrow> strip content
             | None \<Rightarrow> RuleBasedSummarizer_summarize texts max_length))"

definition MiniLMSummarizer_summarize :: "llm_client option \<Rightarrow> string list \<Rightarrow> int \<Rightarrow> string" where
  "MiniLMSummarizer_summarize summarizer texts max_length =
     (case summarizer of
        None \<Rightarrow> RuleBasedSummarizer_summarize texts max_length
      | Some pipeline \<Rightarrow>
          if texts = [] then RuleBasedSummarizer_summarize texts max_length
          else
            (let combined_text = py_join [CHR 0x0A] texts in
             if length combined_text < 50 then RuleBasedSummarizer_summarize texts max_length
             else
               (case pipeline combined_text max_length of
                  Some summary_text \<Rightarrow> strip summary_text
                | None \<Rightarrow> RuleBasedSummarizer_summarize texts max_length)))"

fun summarize :: "strategy \<Rightarrow> string list \<Rightarrow> int \<Rightarrow> string" where
  "summarize RuleBasedSummarizer texts max_length = RuleBasedSummarizer_summarize texts max_length"
| "summarize (LLMSummarizer c) texts max_length = LLMSummarizer_summarize c texts max_length"
| "summarize (MiniLMSummarizer p) texts max_length = MiniLMSummarizer_summarize p texts max_length"

subsection \<open>MemorySummarizer\<close>

text \<open>
  A memory handed to \<open>summarize_memories\<close> is a dict that may or may not have the
  keys \<open>'text'\<close> and \<open>'id'\<close>.  The empty-input result has no \<open>'original_length'\<close>
  entry.
\<close>

record memory_dict =
  m_text :: "string option"
  m_id :: "int option"

record summary_result =
  sr_summary :: string
  sr_source_count :: nat
  sr_source_ids :: "int list"
  sr_created_at :: string
  sr_topic :: string
  sr_original_length :: "nat option"

record memory_summarizer =
  ms_strategy :: strategy
  ms_summary_history :: "summary_result list"

text \<open>\<open>m.get('text')\<close> is truthy exactly when the key is present with a non-empty string.\<close>

definition has_text :: "memory_dict \<Rightarrow> bool" where
  "has_text m = (case m_text m of None \<Rightarrow> False | Some t \<Rightarrow> t \<noteq> [])"

definition summarize_memories ::
  "memory_summarizer \<Rightarrow> memory_dict list \<Rightarrow> int \<Rightarrow> string \<Rightarrow> string
     \<Rightarrow> summary_result \<times> memory_summarizer" where
  "summarize_memories self memories max_length topic now =
     (if memories = [] then
        (\<lparr>sr_summary = [], sr_source_count = 0, sr_source_ids = [], sr_created_at = now,
          sr_topic = topic, sr_original_length = None\<rparr>, self)
      else
        (let texts = map (\<lambda>m. case m_text m of None \<Rightarrow> [] | Some t \<Rightarrow> t) (filter has_text memories);
             source_ids = List.map_filter m_id memories;
             summary = summarize (ms_strategy self) texts max_length;
             result = \<lparr>sr_summary = summary, sr_source_count = length texts,
                       sr_source_ids = source_ids, sr_created_at = now, sr_topic = topic,
                       sr_original_length = Some (sum_list (map length texts))\<rparr>
         in (result, self\<lparr>ms_summary_history := ms_summary_history self @ [result]\<rparr>)))"

definition get_summary_history :: "memory_summarizer \<Rightarrow> int \<Rightarrow> summary_result list" where
  "get_summary_history self limit = py_slice_from (ms_summary_history self) (- limit)"

section \<open>Python values, dicts and dict objects\<close>

text \<open>
  Metadata values are JSON-like Python values: \<open>None\<close>, strings, integers and
  lists of such values.  A dict with string keys is an
  association list in insertion order with distinct keys: \<open>d[k] = v\<close> is
  \<open>AList.update k v d\<close>, which overwrites in place or appends, and \<open>len(d)\<close> is
  the length of the list.
\<close>

datatype pyval = PNone | PStr string | PInt int | PList "pyval list"

type_synonym py_dict = "(string \<times> pyval) list"

text \<open>\<open>d.update(other)\<close>, and the dict display \<open>{**d, **other}\<close>.\<close>

definition dict_update :: "('k \<times> 'v) list \<Rightarrow> ('k \<times> 'v) list \<Rightarrow> ('k \<times> 'v) list" where
  "dict_update d other = foldl (\<lambda>acc kv. AList.update (fst kv) (snd kv) acc) d other"

text \<open>
  A metadata dict is a mutable object and \<open>add_memory\<close> stores the caller's dict
  itself, not a copy, so metadata dicts live in a store of objects: \<open>objs\<close> maps an
  address to the dict at that address and \<open>brk\<close> is the next unused address.
\<close>

type_synonym addr = nat

record py_heap =
  objs :: "addr \<Rightarrow> py_dict"
  brk :: addr

definition new_dict :: "py_dict \<Rightarrow> py_heap \<Rightarrow> addr \<times> py_heap" where
  "new_dict d h = (brk h, h\<lparr>objs := (objs h)(brk h := d), brk := Suc (brk h)\<rparr>)"

definition empty_heap :: py_heap where
  "empty_heap = \<lparr>objs = (\<lambda>_. []), brk = 0\<rparr>"

text \<open>
  \<open>int(s)\<close> for a string; \<open>None\<close> stands for ValueError.  Surrounding
  whitespace is ignored, a sign is allowed, and single underscores may separate decimal
  digits.  The whitespace of \<open>int\<close> is not that of \<open>str.strip\<close>: below 128 only
  the code points 9-13 and 32 count (the separators 28-31 are refused), above 127 the
  Unicode spaces, which below 256 are 133 and 160.  A literal with more than 4300 digit
  characters is refused (the default of \<open>sys.int_max_str_digits\<close>; sign and
  underscores are not counted).  Digits outside ASCII are not modelled.
\<close>

definition int_isspace :: "char \<Rightarrow> bool" where
  "int_isspace c = (of_char c \<in> {9, 10, 11, 12, 13, 32, 133, 160 :: nat})"

definition int_max_str_digits :: nat where
  "int_max_str_digits = 4300"

definition is_digit :: "char \<Rightarrow> bool" where
  "is_digit c = (48 \<le> (of_char c :: nat) \<and> (of_char c :: nat) \<le> 57)"

fun parse_digits :: "nat \<Rightarrow> bool \<Rightarrow> string \<Rightarrow> nat option" where
  "parse_digits acc after_digit [] = (if after_digit then Some acc else None)"
| "parse_digits acc after_digit (c # cs) =
     (if is_digit c then parse_digits (10 * acc + (of_char c - 48)) True cs
      else if c = CHR ''_'' \<and> after_digit then parse_digits acc False cs
      else None)"

definition py_int :: "string \<Rightarrow> int option" where
  "py_int s =
     (let t = rev (dropWhile int_isspace (rev (dropWhile int_isspace s))) in
      if int_max_str_digits < length (filter is_digit t) then None
      else
        (case t of
           [] \<Rightarrow> None
         | c # cs \<Rightarrow>
             if c = CHR ''-'' then map_option (\<lambda>n. - int n) (parse_digits 0 False cs)
             else if c = CHR ''+'' then map_option int (parse_digits 0 False cs)
             else map_option int (parse_digits 0 False (c # cs))))"

text \<open>\<open>max\<close> of a non-empty sequence of integers.\<close>

definition py_max :: "int \<Rightarrow> int list \<Rightarrow> int" where
  "py_max x xs = foldl max x xs"

text \<open>The exceptions that the operations below raise by themselves.\<close>

datatype py_exception = TypeError | ZeroDivisionError


section \<open>Python floats\<close>

text \<open>
  A Python float is an IEEE-754 binary64 value: a finite number, an infinity or NaN.
  The two zeros are one value here; no operation below tells them apart, since
  Python's division raises on either.
\<close>

datatype float = Finite real | PosInf | NegInf | NaN

text \<open>Rounding a real to the nearest integer, a tie going to the even one.\<close>

definition rne :: "real \<Rightarrow> int" where
  "rne x =
     (let f = \<lfloor>x\<rfloor>; r = x - of_int f in
      if r < 1 / 2 then f else if 1 / 2 < r then f + 1 else if even f then f else f + 1)"

text \<open>
  A binary64 value has 53 significant bits: for \<open>2^e \<le> |x| < 2^(e+1)\<close> the
  representable values around \<open>x\<close> are the multiples of \<open>2^(e-52)\<close>, and below
  \<open>2^-1022\<close> (the subnormal range) the multiples of \<open>2^-1074\<close>.
  \<open>round_real\<close> is rounding to nearest, ties to even, with the exponent unbounded
  above; \<open>round_float\<close> is the result of an operation whose exact value is \<open>x\<close>:
  a rounded magnitude of \<open>2^1024\<close> or more overflows to an infinity.
\<close>

definition ulp_exponent :: "real \<Rightarrow> int" where
  "ulp_exponent x = max \<lfloor>log 2 \<bar>x\<bar>\<rfloor> (- 1022) - 52"

definition round_real :: "real \<Rightarrow> real" where
  "round_real x =
     (if x = 0 then 0
      else 2 powr of_int (ulp_exponent x) * of_int (rne (x / 2 powr of_int (ulp_exponent x))))"

definition round_float :: "real \<Rightarrow> float" where
  "round_float x =
     (let y = round_real x in
      if 2 ^ 1024 \<le> \<bar>y\<bar> then (if 0 < y then PosInf else NegInf) else Finite y)"

text \<open>The float operators \<open>+\<close> and \<open>/\<close>.  Division by zero raises ZeroDivisionError.\<close>

fun float_add :: "float \<Rightarrow> float \<Rightarrow> float" where
  "float_add (Finite x) (Finite y) = round_float (x + y)"
| "float_add NaN b = NaN"
| "float_add a NaN = NaN"
| "float_add PosInf NegInf = NaN"
| "float_add NegInf PosInf = NaN"
| "float_add PosInf b = PosInf"
| "float_add NegInf b = NegInf"
| "float_add a PosInf = PosInf"
| "float_add a NegInf = NegInf"

fun float_truediv :: "float \<Rightarrow> float \<Rightarrow> py_exception + float" where
  "float_truediv a (Finite y) =
     (if y = 0 then Inl ZeroDivisionError
      else (case a of
              Finite x \<Rightarrow> Inr (round_float (x / y))
            | PosInf \<Rightarrow> Inr (if 0 < y then PosInf else NegInf)
            | NegInf \<Rightarrow> Inr (if 0 < y then NegInf else PosInf)
            | NaN \<Rightarrow> Inr NaN))"
| "float_truediv a NaN = Inr NaN"
| "float_truediv (Finite x) b = Inr (Finite 0)"
| "float_truediv a b = Inr NaN"


section \<open>long\_term\_memory.py\<close>

subsection \<open>Collaborators\<close>

text \<open>
  The vector index is \<open>faiss.IndexFlatL2\<close>: it holds the vectors in insertion order,
  \<open>ntotal\<close> is their number, and \<open>add\<close> fails on a vector of the wrong dimension.
  Vector components stand for float32 values; the model never computes with them.
\<close>

type_synonym vector = "real list"

record faiss_index =
  ix_d :: int
  ix_vectors :: "vector list"

definition IndexFlatL2 :: "int \<Rightarrow> faiss_index" where
  "IndexFlatL2 d = \<lparr>ix_d = d, ix_vectors = []\<rparr>"

definition ntotal :: "faiss_index \<Rightarrow> nat" where
  "ntotal ix = length (ix_vectors ix)"

definition index_add :: "faiss_index \<Rightarrow> vector \<Rightarrow> faiss_index option" where
  "index_add ix v =
     (if int (length v) = ix_d ix then Some (ix\<lparr>ix_vectors := ix_vectors ix @ [v]\<rparr>) else None)"

text \<open>
  \<open>EmbeddingUtil\<close> comes from a module that is not part of the sources, so the
  embedder is a parameter: it maps a text to its vector, or to \<open>None\<close> when the call
  raises.
\<close>

type_synonym embedder = "string \<Rightarrow> vector option"

subsection \<open>State\<close>

text \<open>
  A memory is the dict built by \<open>add_memory\<close>: \<open>text\<close>, \<open>metadata\<close>,
  \<open>created_at\<close> and \<open>id\<close>, and later \<open>updated_at\<close> and \<open>deleted_at\<close>.  In the
  running instance the metadata is a reference to a dict object; in the persisted
  map it is the dict itself.
\<close>

record 'md memory =
  mem_text :: string
  mem_metadata :: 'md
  mem_created_at :: string
  mem_id :: int
  mem_updated_at :: "string option"
  mem_deleted_at :: "string option"

record long_term_memory =
  vector_dim :: int
  index :: faiss_index
  id_to_memory :: "(int \<times> addr memory) list"
  next_id :: int
  heap :: py_heap

definition LongTermMemory :: "int \<Rightarrow> py_heap \<Rightarrow> long_term_memory" where
  "LongTermMemory d h =
     \<lparr>vector_dim = d, index = IndexFlatL2 d, id_to_memory = [], next_id = 0, heap = h\<rparr>"

datatype error = EmbeddingError | IndexAddError

subsection \<open>add\_memory\<close>

text \<open>
  Both failures happen before anything is written, and the exception is re-raised,
  so a failed call leaves the instance as it was.  The metadata is a dict, as the
  annotation \<open>Dict\<close> says; \<open>metadata or {}\<close> keeps the caller's dict object
  unless it is missing or empty.
\<close>

definition add_memory ::
  "embedder \<Rightarrow> long_term_memory \<Rightarrow> string \<Rightarrow> addr option \<Rightarrow> string
     \<Rightarrow> error + (int \<times> long_term_memory)" where
  "add_memory E self memory_text metadata now =
     (case E memory_text of
        None \<Rightarrow> Inl EmbeddingError
      | Some embedding \<Rightarrow>
          (case index_add (index self) embedding of
             None \<Rightarrow> Inl IndexAddError
           | Some ix \<Rightarrow>
               (let (md, h) =
                      (case metadata of
                         None \<Rightarrow> new_dict [] (heap self)
                       | Some a \<Rightarrow>
                           if objs (heap self) a = [] then new_dict [] (heap self)
                           else (a, heap self));
                    m = \<lparr>mem_text = memory_text, mem_metadata = md, mem_created_at = now,
                         mem_id = next_id self, mem_updated_at = None, mem_deleted_at = None\<rparr>;
                    memory_id = next_id self
                in Inr (memory_id,
                        self\<lparr>index := ix,
                             id_to_memory := AList.update (next_id self) m (id_to_memory self),
                             next_id := next_id self + 1,
                             heap := h\<rparr>))))"

subsection \<open>get\_memory, update\_memory, delete\_memory\<close>

definition get_memory :: "long_term_memory \<Rightarrow> int \<Rightarrow> addr memory option" where
  "get_memory self memory_id = map_of (id_to_memory self) memory_id"

text \<open>
  \<open>if text\<close> and \<open>if metadata\<close> test truthiness: \<open>None\<close>, the empty string and
  the empty dict are skipped.  The metadata is updated in place, in the dict object
  the record refers to.
\<close>

definition update_memory ::
  "long_term_memory \<Rightarrow> int \<Rightarrow> string option \<Rightarrow> py_dict option \<Rightarrow> string
     \<Rightarrow> bool \<times> long_term_memory" where
  "update_memory self memory_id text metadata now =
     (case map_of (id_to_memory self) memory_id of
        None \<Rightarrow> (False, self)
      | Some m \<Rightarrow>
          (let m1 = (case text of
                       None \<Rightarrow> m
                     | Some t \<Rightarrow> if t = [] then m else m\<lparr>mem_text := t\<rparr>);
               h = (case metadata of
                      None \<Rightarrow> heap self
                    | Some md \<Rightarrow>
                        if md = [] then heap self
                        else (heap self)\<lparr>objs := (objs (heap self))
                               (mem_metadata m := dict_update (objs (heap self) (mem_metadata m)) md)\<rparr>);
               m2 = m1\<lparr>mem_updated_at := Some now\<rparr>
           in (True, self\<lparr>id_to_memory := AList.update memory_id m2 (id_to_memory self),
                          heap := h\<rparr>)))"

definition delete_memory :: "long_term_memory \<Rightarrow> int \<Rightarrow> string \<Rightarrow> bool \<times> long_term_memory" where
  "delete_memory self memory_id now =
     (case map_of (id_to_memory self) memory_id of
        Some m \<Rightarrow>
          (True, self\<lparr>id_to_memory :=
                        AList.update memory_id (m\<lparr>mem_deleted_at := Some now\<rparr>) (id_to_memory self)\<rparr>)
      | None \<Rightarrow> (False, self))"

subsection \<open>load\_index\<close>

text \<open>
  What reading a file gives: the file is missing (FileNotFoundError), reading fails
  otherwise, or the content.  For the map file \<open>ReadFault\<close> is a file that cannot
  be read, text that is not JSON, and JSON whose top level is not an object (then
  \<open>memory_dict.items()\<close> raises); the content is a JSON object, whose keys are
  strings.  \<open>load_index\<close> converts the keys and never looks at the values.  The
  values are taken to be complete records, as \<open>save_index\<close> writes them and as the
  annotation \<open>Dict[int, Dict]\<close> says; a map with other values is not represented (the
  code would load it just the same).  Each loaded record gets a metadata dict object of
  its own.
\<close>

datatype 'a file_read = FileNotFound | ReadFault | Content 'a

fun load_records ::
  "(int \<times> py_dict memory) list \<Rightarrow> py_heap \<Rightarrow> (int \<times> addr memory) list \<times> py_heap" where
  "load_records [] h = ([], h)"
| "load_records ((k, m) # rest) h =
     (let (a, h1) = new_dict (mem_metadata m) h;
          (ms, h2) = load_records rest h1
      in ((k, \<lparr>mem_text = mem_text m, mem_metadata = a, mem_created_at = mem_created_at m,
               mem_id = mem_id m, mem_updated_at = mem_updated_at m,
               mem_deleted_at = mem_deleted_at m\<rparr>) # ms, h2))"

text \<open>
  The statements of \<open>load_index\<close> run in order and an exception leaves the
  assignments made so far in place: \<open>self.index\<close> is assigned before the map file
  is opened, and \<open>self.id_to_memory\<close> only after every key has been converted.
  \<open>next_id\<close> is assigned only when the loaded table is not empty.
\<close>

definition load_index ::
  "long_term_memory \<Rightarrow> faiss_index file_read \<Rightarrow> (string \<times> py_dict memory) list file_read
     \<Rightarrow> bool \<times> long_term_memory" where
  "load_index self index_file map_file =
     (case index_file of
        FileNotFound \<Rightarrow> (False, self)
      | ReadFault \<Rightarrow> (False, self)
      | Content ix \<Rightarrow>
          (let self1 = self\<lparr>index := ix\<rparr> in
           case map_file of
             FileNotFound \<Rightarrow> (False, self1)
           | ReadFault \<Rightarrow> (False, self1)
           | Content memory_dict \<Rightarrow>
               (if list_ex (\<lambda>kv. py_int (fst kv) = None) memory_dict then (False, self1)
                else
                  (let items = dict_update [] (map (\<lambda>kv. (the (py_int (fst kv)), snd kv)) memory_dict);
                       (table, h) = load_records items (heap self1);
                       self2 = self1\<lparr>id_to_memory := table, heap := h\<rparr>
                   in case map fst table of
                        [] \<Rightarrow> (True, self2)
                      | k # ks \<Rightarrow> (True, self2\<lparr>next_id := py_max k ks + 1\<rparr>)))))"

subsection \<open>get\_stats\<close>

record stats =
  total_memories :: nat
  index_size :: nat
  st_vector_dim :: int
  memories_by_type :: "(pyval \<times> nat) list"

text \<open>
  The histogram is a dict keyed by the \<open>type\<close> entry of the metadata.  A dict key
  must be hashable: \<open>None\<close>, strings and integers are, a list is not, and
  \<open>counts.get\<close> raises TypeError on it.  Neither \<open>_count_by_type\<close> nor
  \<open>get_stats\<close> catches the exception, so \<open>get_stats\<close> raises too.
\<close>

fun hashable :: "pyval \<Rightarrow> bool" where
  "hashable (PList xs) = False"
| "hashable v = True"

definition memory_type :: "py_heap \<Rightarrow> addr memory \<Rightarrow> pyval" where
  "memory_type h mem =
     (case map_of (objs h (mem_metadata mem)) ''type'' of
        None \<Rightarrow> PStr ''unknown'' | Some t \<Rightarrow> t)"

fun count_types ::
  "py_heap \<Rightarrow> (pyval \<times> nat) list \<Rightarrow> addr memory list \<Rightarrow> py_exception + (pyval \<times> nat) list" where
  "count_types h counts [] = Inr counts"
| "count_types h counts (mem # mems) =
     (let mem_type = memory_type h mem in
      if hashable mem_type then
        count_types h
          (AList.update mem_type
             ((case map_of counts mem_type of None \<Rightarrow> 0 | Some c \<Rightarrow> c) + 1) counts)
          mems
      else Inl TypeError)"

definition count_by_type :: "long_term_memory \<Rightarrow> py_exception + (pyval \<times> nat) list" where
  "count_by_type self = count_types (heap self) [] (map snd (id_to_memory self))"

definition get_stats :: "long_term_memory \<Rightarrow> py_exception + stats" where
  "get_stats self =
     (case count_by_type self of
        Inl e \<Rightarrow> Inl e
      | Inr counts \<Rightarrow>
          Inr \<lparr>total_memories = length (id_to_memory self),
               index_size = ntotal (index self),
               st_vector_dim = vector_dim self,
               memories_by_type = counts\<rparr>)"

text \<open>Every stored record has a hashable \<open>type\<close>.\<close>

definition types_hashable :: "long_term_memory \<Rightarrow> bool" where
  "types_hashable self =
     list_all (\<lambda>km. hashable (memory_type (heap self) (snd km))) (id_to_memory self)"

subsection \<open>search\_similar\<close>

text \<open>
  The similarity of a result is the Python expression \<open>1.0 / (1.0 + float(dist))\<close>,
  where \<open>dist\<close> is the float32 distance that the index reports; \<open>float\<close> converts
  it exactly.
\<close>

definition similarity :: "float \<Rightarrow> py_exception + float" where
  "similarity distance = float_truediv (Finite 1) (float_add (Finite 1) distance)"

text \<open>
  A result is the dict with the keys \<open>id\<close>, \<open>similarity\<close>, \<open>distance\<close> and
  \<open>memory\<close>.
\<close>

record search_result =
  res_id :: int
  res_similarity :: float
  res_distance :: float
  res_memory :: "addr memory"

text \<open>
  \<open>faiss\<close> is not part of the sources, so the search of the index is a parameter: for
  the index, the query vector and \<open>k\<close> it gives the pairs of
  \<open>zip(ids[0], distances[0])\<close>, or \<open>None\<close> when building the query array or the
  search raises.  An id may be \<open>-1\<close>, and a distance is any float32 value.
\<close>

type_synonym searcher = "faiss_index \<Rightarrow> vector \<Rightarrow> int \<Rightarrow> (int \<times> float) list option"

text \<open>
  The loop over the pairs: a pair whose id is negative or not in the table is skipped;
  an exception raised while a result is built leaves the loop.
\<close>

fun collect_results ::
  "long_term_memory \<Rightarrow> (int \<times> float) list \<Rightarrow> py_exception + search_result list" where
  "collect_results self [] = Inr []"
| "collect_results self ((idx, distance) # rest) =
     (case (if 0 \<le> idx then map_of (id_to_memory self) idx else None) of
        None \<Rightarrow> collect_results self rest
      | Some mem \<Rightarrow>
          (case similarity distance of
             Inl e \<Rightarrow> Inl e
           | Inr sim \<Rightarrow>
               (case collect_results self rest of
                  Inl e \<Rightarrow> Inl e
                | Inr results \<Rightarrow>
                    Inr (\<lparr>res_id = idx, res_similarity = sim, res_distance = distance,
                          res_memory = mem\<rparr> # results))))"

text \<open>
  \<open>search_similar\<close> returns the empty list when the index is empty, and also when
  anything raises: the whole body is inside \<open>try\<close>.
\<close>

definition search_similar ::
  "embedder \<Rightarrow> searcher \<Rightarrow> long_term_memory \<Rightarrow> string \<Rightarrow> int \<Rightarrow> search_result list" where
  "search_similar E search self query_text top_k =
     (if ntotal (index self) = 0 then []
      else
        (case E query_text of
           None \<Rightarrow> []
         | Some query_embedding \<Rightarrow>
             (case search (index self) query_embedding (min top_k (int (ntotal (index self)))) of
                None \<Rightarrow> []
              | Some pairs \<Rightarrow>
                  (case collect_results self pairs of
                     Inl e \<Rightarrow> []
                   | Inr results \<Rightarrow> results))))"


subsection \<open>What a caller sees of a record, and sequences of calls\<close>

text \<open>
  \<open>memory_view\<close> is the record as \<open>get_memory\<close> shows it to the caller, with the
  metadata dict read through the reference.
\<close>

definition memory_view :: "long_term_memory \<Rightarrow> int \<Rightarrow> py_dict memory option" where
  "memory_view self memory_id =
     map_option
       (\<lambda>m. \<lparr>mem_text = mem_text m, mem_metadata = objs (heap self) (mem_metadata m),
              mem_created_at = mem_created_at m, mem_id = mem_id m,
              mem_updated_at = mem_updated_at m, mem_deleted_at = mem_deleted_at m\<rparr>)
       (get_memory self memory_id)"

text \<open>
  A caller of the long-term memory builds metadata dicts and calls \<open>add_memory\<close>,
  \<open>update_memory\<close> and \<open>delete_memory\<close>.  \<open>run_calls\<close> performs a sequence of
  such steps and collects the ids that \<open>add_memory\<close> returned; a call that raises
  returns no id and leaves the state as it was.
\<close>

datatype call =
    NewDict py_dict
  | AddMemory string "addr option" string
  | UpdateMemory int "string option" "py_dict option" string
  | DeleteMemory int string

fun do_call :: "embedder \<Rightarrow> long_term_memory \<Rightarrow> call \<Rightarrow> int option \<times> long_term_memory" where
  "do_call E s (NewDict d) = (None, s\<lparr>heap := snd (new_dict d (heap s))\<rparr>)"
| "do_call E s (AddMemory memory_text metadata now) =
     (case add_memory E s memory_text metadata now of
        Inl e \<Rightarrow> (None, s)
      | Inr (memory_id, s') \<Rightarrow> (Some memory_id, s'))"
| "do_call E s (UpdateMemory memory_id text metadata now) =
     (None, snd (update_memory s memory_id text metadata now))"
| "do_call E s (DeleteMemory memory_id now) = (None, snd (delete_memory s memory_id now))"

fun run_calls :: "embedder \<Rightarrow> long_term_memory \<Rightarrow> call list \<Rightarrow> int list \<times> long_term_memory" where
  "run_calls E s [] = ([], s)"
| "run_calls E s (c # cs) =
     (let (r, s') = do_call E s c;
          (ids, s'') = run_calls E s' cs
      in ((case r of None \<Rightarrow> ids | Some i \<Rightarrow> i # ids), s''))"

text \<open>
  The table's keys are distinct and below the counter.  This holds in a fresh
  instance and is kept by every operation.
\<close>

definition keys_below_next :: "long_term_memory \<Rightarrow> bool" where
  "keys_below_next s =
     (distinct (map fst (id_to_memory s)) \<and> list_all (\<lambda>k. k < next_id s) (map fst (id_to_memory s)))"


text \<open>The invariant of a running instance: moreover the index holds one vector per record.\<close>

definition ltm_inv :: "long_term_memory \<Rightarrow> bool" where
  "ltm_inv s = (keys_below_next s \<and> ntotal (index s) = length (id_to_memory s))"

subsection \<open>Example instances\<close>

text \<open>
  Instances reached from a fresh one by calls of \<open>add_memory\<close>, with an embedder
  that maps every text to the vector \<open>(0, 0)\<close>.
\<close>

definition zero_embedder :: embedder where
  "zero_embedder = (\<lambda>_. Some [0, 0])"

definition ltm_one :: long_term_memory where
  "ltm_one = snd (run_calls zero_embedder (LongTermMemory 2 empty_heap) [AddMemory ''a'' None ''t0''])"

definition ltm_two :: long_term_memory where
  "ltm_two = snd (run_calls zero_embedder (LongTermMemory 2 empty_heap)
                   [AddMemory ''a'' None ''t0'', AddMemory ''b'' None ''t1''])"


text \<open>A memory whose metadata gives a list as its \<open>type\<close>.\<close>

definition ltm_list_type :: long_term_memory where
  "ltm_list_type = snd (run_calls zero_embedder (LongTermMemory 2 empty_heap)
                         [NewDict [(''type'', PList [PStr ''fact'', PStr ''rule''])],
                          AddMemory ''a'' (Some 0) ''t0''])"

text \<open>
  Searches that report the two stored vectors: at the distances 0 and 1, and at the
  distances \<open>2^-60\<close> and \<open>2^-59\<close>, which are float32 values.
\<close>

definition search_far :: searcher where
  "search_far = (\<lambda>ix q k. Some (take (nat k) [(1, Finite 0), (0, Finite 1)]))"

definition search_near :: searcher where
  "search_near = (\<lambda>ix q k. Some (take (nat k) [(0, Finite (2 powr (- 60))), (1, Finite (2 powr (- 59)))]))"

text \<open>Two memories added with one and the same metadata dict object.\<close>

definition ltm_shared :: long_term_memory where
  "ltm_shared = snd (run_calls zero_embedder (LongTermMemory 2 empty_heap)
                      [NewDict [(''type'', PStr ''fact'')],
                       AddMemory ''a'' (Some 0) ''t0'', AddMemory ''b'' (Some 0) ''t1''])"


section \<open>working\_memory.py\<close>

subsection \<open>The Redis client\<close>

text \<open>
  The server keeps, under a key, a list of values and possibly a time to live; a key
  whose list is empty does not exist.  The stored values are the JSON texts of the
  turns; a turn built by \<open>add_context\<close> from JSON-like metadata is read back
  unchanged, so the model stores the turns themselves.

  Any command may raise (connection lost, timeout).  \<open>faults\<close> is the schedule of
  the commands to come: each command takes the first entry, and raises when it is
  \<open>True\<close>; an empty schedule means no further fault.
\<close>

record turn =
  t_role :: string
  t_content :: string
  t_timestamp :: string
  t_metadata :: py_dict

record redis =
  lists :: "string \<Rightarrow> turn list"
  ttl :: "string \<Rightarrow> nat option"
  faults :: "bool list"

definition next_fault :: "redis \<Rightarrow> bool \<times> redis" where
  "next_fault r = (case faults r of [] \<Rightarrow> (False, r) | f # fs \<Rightarrow> (f, r\<lparr>faults := fs\<rparr>))"

text \<open>
  Each command returns \<open>None\<close> when it raises.  \<open>lrange key 0 -1\<close> is the whole
  list; \<open>delete\<close> removes list and time to live; \<open>rpush\<close> appends, creating the
  key without time to live; \<open>expire\<close> sets the time to live of an existing key.
\<close>

definition ping :: "redis \<Rightarrow> unit option \<times> redis" where
  "ping r = (let (f, r') = next_fault r in if f then (None, r') else (Some (), r'))"

definition lrange_all :: "redis \<Rightarrow> string \<Rightarrow> turn list option \<times> redis" where
  "lrange_all r key = (let (f, r') = next_fault r in if f then (None, r') else (Some (lists r' key), r'))"

definition delete :: "redis \<Rightarrow> string \<Rightarrow> unit option \<times> redis" where
  "delete r key =
     (let (f, r') = next_fault r in
      if f then (None, r')
      else (Some (), r'\<lparr>lists := (lists r')(key := []), ttl := (ttl r')(key := None)\<rparr>))"

definition rpush :: "redis \<Rightarrow> string \<Rightarrow> turn \<Rightarrow> unit option \<times> redis" where
  "rpush r key item =
     (let (f, r') = next_fault r in
      if f then (None, r')
      else (Some (), r'\<lparr>lists := (lists r')(key := lists r' key @ [item])\<rparr>))"

definition expire :: "redis \<Rightarrow> string \<Rightarrow> nat \<Rightarrow> unit option \<times> redis" where
  "expire r key seconds =
     (let (f, r') = next_fault r in
      if f then (None, r')
      else if lists r' key = [] then (Some (), r')
      else (Some (), r'\<lparr>ttl := (ttl r')(key := Some seconds)\<rparr>))"

text \<open>The loop \<open>for item in existing_list: rpush(key, item)\<close> stops at the first fault.\<close>

fun rpush_each :: "redis \<Rightarrow> string \<Rightarrow> turn list \<Rightarrow> unit option \<times> redis" where
  "rpush_each r key [] = (Some (), r)"
| "rpush_each r key (item # items) =
     (case rpush r key item of
        (None, r') \<Rightarrow> (None, r')
      | (Some u, r') \<Rightarrow> rpush_each r' key items)"

subsection \<open>WorkingMemory\<close>

record working_memory =
  client :: redis
  window_size :: int

text \<open>The constructor pings the server and raises when that fails.\<close>

definition WorkingMemory :: "redis \<Rightarrow> int \<Rightarrow> working_memory option" where
  "WorkingMemory r n =
     (case ping r of
        (None, r') \<Rightarrow> None
      | (Some u, r') \<Rightarrow> Some \<lparr>client = r', window_size = n\<rparr>)"

definition context_key :: "string \<Rightarrow> string" where
  "context_key session_id = ''agent: working_memory:'' @ session_id"

text \<open>
  \<open>add_context\<close> reads the list, appends the turn, keeps the slice
  \<open>existing_list[-window_size:]\<close> when the list is longer than the window, deletes
  the key, pushes the turns one by one and sets the expiry of 24 hours.  Every
  exception is caught and turned into the result \<open>False\<close>; what was written before
  the fault stays written.
\<close>

definition add_context ::
  "working_memory \<Rightarrow> string \<Rightarrow> string \<Rightarrow> string \<Rightarrow> py_dict option \<Rightarrow> string
     \<Rightarrow> bool \<times> working_memory" where
  "add_context self session_id role content metadata now =
     (let round_data = \<lparr>t_role = role, t_content = content, t_timestamp = now,
                        t_metadata = (case metadata of None \<Rightarrow> [] | Some d \<Rightarrow> d)\<rparr>;
          key = context_key session_id
      in case lrange_all (client self) key of
           (None, c1) \<Rightarrow> (False, self\<lparr>client := c1\<rparr>)
         | (Some existing, c1) \<Rightarrow>
             (let appended = existing @ [round_data];
                  existing_list =
                    (if window_size self < int (length appended)
                     then py_slice_from appended (- window_size self) else appended)
              in case delete c1 key of
                   (None, c2) \<Rightarrow> (False, self\<lparr>client := c2\<rparr>)
                 | (Some u, c2) \<Rightarrow>
                     (case rpush_each c2 key existing_list of
                        (None, c3) \<Rightarrow> (False, self\<lparr>client := c3\<rparr>)
                      | (Some u, c3) \<Rightarrow>
                          (case expire c3 key 86400 of
                             (None, c4) \<Rightarrow> (False, self\<lparr>client := c4\<rparr>)
                           | (Some u, c4) \<Rightarrow> (True, self\<lparr>client := c4\<rparr>)))))"

definition get_context :: "working_memory \<Rightarrow> string \<Rightarrow> turn list \<times> working_memory" where
  "get_context self session_id =
     (case lrange_all (client self) (context_key session_id) of
        (None, c1) \<Rightarrow> ([], self\<lparr>client := c1\<rparr>)
      | (Some existing, c1) \<Rightarrow> (existing, self\<lparr>client := c1\<rparr>))"

text \<open>\<open>clear_memory\<close> builds its key without the space after \<open>agent:\<close>.\<close>

definition clear_memory :: "working_memory \<Rightarrow> string \<Rightarrow> bool \<times> working_memory" where
  "clear_memory self session_id =
     (case delete (client self) (''agent:working_memory:'' @ session_id) of
        (None, c1) \<Rightarrow> (False, self\<lparr>client := c1\<rparr>)
      | (Some u, c1) \<Rightarrow> (True, self\<lparr>client := c1\<rparr>))"

subsection \<open>Sequences of add\_context calls\<close>

text \<open>
  A call is the session, the role, the content, the metadata and the time of the
  call.  \<open>add_contexts\<close> performs the calls in order and tells whether all of them
  returned \<open>True\<close>; \<open>turns_of\<close> lists the turns that the calls for one session add.
\<close>

type_synonym context_call = "string \<times> string \<times> string \<times> py_dict option \<times> string"

fun add_contexts :: "working_memory \<Rightarrow> context_call list \<Rightarrow> bool \<times> working_memory" where
  "add_contexts self [] = (True, self)"
| "add_contexts self ((session_id, role, content, metadata, now) # calls) =
     (let (ok, self1) = add_context self session_id role content metadata now;
          (oks, self2) = add_contexts self1 calls
      in (ok \<and> oks, self2))"

fun turns_of :: "string \<Rightarrow> context_call list \<Rightarrow> turn list" where
  "turns_of sid [] = []"
| "turns_of sid ((session_id, role, content, metadata, now) # calls) =
     (if session_id = sid
      then \<lparr>t_role = role, t_content = content, t_timestamp = now,
            t_metadata = (case metadata of None \<Rightarrow> [] | Some d \<Rightarrow> d)\<rparr> # turns_of sid calls
      else turns_of sid calls)"

text \<open>The last \<open>n\<close> elements of a list, oldest first.\<close>

definition last_n :: "nat \<Rightarrow> 'a list \<Rightarrow> 'a list" where
  "last_n n xs = drop (length xs - n) xs"

definition fresh_redis :: redis where
  "fresh_redis = \<lparr>lists = (\<lambda>_. []), ttl = (\<lambda>_. None), faults = []\<rparr>"


section \<open>memory\_manager.py\<close>

datatype MemoryPriority = LOW | MEDIUM | HIGH | CRITICAL

fun priority_name :: "MemoryPriority \<Rightarrow> string" where
  "priority_name LOW = ''LOW''"
| "priority_name MEDIUM = ''MEDIUM''"
| "priority_name HIGH = ''HIGH''"
| "priority_name CRITICAL = ''CRITICAL''"

record memory_manager =
  mm_working_memory :: working_memory
  mm_long_term_memory :: long_term_memory

text \<open>
  The metadata of the long-term record: the dict display
  \<open>{"session_id": ..., "role": ..., "priority": ..., "type": "interaction", **(metadata or {})}\<close>.
\<close>

definition interaction_meta ::
  "string \<Rightarrow> string \<Rightarrow> MemoryPriority \<Rightarrow> py_dict option \<Rightarrow> py_dict" where
  "interaction_meta session_id role priority metadata =
     dict_update
       [(''session_id'', PStr session_id), (''role'', PStr role),
        (''priority'', PStr (priority_name priority)), (''type'', PStr ''interaction'')]
       (case metadata of None \<Rightarrow> [] | Some d \<Rightarrow> d)"

text \<open>
  \<open>add_interaction\<close> calls \<open>add_context\<close> and drops its result, then, for priority
  HIGH or CRITICAL, builds the metadata dict and calls \<open>add_memory\<close>.  The only
  exception that can reach the handler is the one \<open>add_memory\<close> re-raises; then the
  result is \<open>False\<close>.  \<open>now_wm\<close> and \<open>now_ltm\<close> are the times read by the two
  stores.
\<close>

definition add_interaction ::
  "embedder \<Rightarrow> memory_manager \<Rightarrow> string \<Rightarrow> string \<Rightarrow> string \<Rightarrow> MemoryPriority
     \<Rightarrow> py_dict option \<Rightarrow> string \<Rightarrow> string \<Rightarrow> bool \<times> memory_manager" where
  "add_interaction E self session_id role content priority metadata now_wm now_ltm =
     (let (stored, wm) = add_context (mm_working_memory self) session_id role content metadata now_wm;
          self1 = self\<lparr>mm_working_memory := wm\<rparr>
      in if priority = HIGH \<or> priority = CRITICAL then
           (let ltm = mm_long_term_memory self1;
                (meta, h) = new_dict (interaction_meta session_id role priority metadata) (heap ltm);
                ltm1 = ltm\<lparr>heap := h\<rparr>
            in case add_memory E ltm1 content (Some meta) now_ltm of
                 Inl e \<Rightarrow> (False, self1\<lparr>mm_long_term_memory := ltm1\<rparr>)
               | Inr (memory_id, ltm2) \<Rightarrow> (True, self1\<lparr>mm_long_term_memory := ltm2\<rparr>))
         else (True, self1))"

text \<open>Whether the long-term write of a text would raise: the embedder or the index refuses.\<close>

definition long_term_write_fails :: "embedder \<Rightarrow> long_term_memory \<Rightarrow> string \<Rightarrow> bool" where
  "long_term_write_fails E ltm content =
     (case E content of None \<Rightarrow> True | Some v \<Rightarrow> index_add (index ltm) v = None)"

text \<open>Example managers: a fresh one, and one whose Redis connection is down.\<close>

definition mm_fresh :: memory_manager where
  "mm_fresh = \<lparr>mm_working_memory = \<lparr>client = fresh_redis, window_size = 10\<rparr>,
               mm_long_term_memory = LongTermMemory 2 empty_heap\<rparr>"

definition mm_redis_down :: memory_manager where
  "mm_redis_down = mm_fresh\<lparr>mm_working_memory :=
                      \<lparr>client = fresh_redis\<lparr>faults := [True]\<rparr>, window_size = 10\<rparr>\<rparr>"

definition failing_embedder :: embedder where
  "failing_embedder = (\<lambda>_. None)"


section \<open>Properties of the summarizer\<close>

subsection \<open>Longest text and whitespace stripping\<close>

lemma py_max_len_snoc:
  "py_max_len x (zs @ [z]) =
     (if length (py_max_len x zs) < length z then z else py_max_len x zs)"
  by (simp add: py_max_len_def)

lemma py_max_len_split:
  "\<exists>pre post. x # xs = pre @ py_max_len x xs # post \<and>
      (\<forall>y\<in>set pre. length y < length (py_max_len x xs)) \<and>
      (\<forall>y\<in>set post. length y \<le> length (py_max_len x xs))"
proof (induction xs rule: rev_induct)
  case Nil
  show ?case
    by (rule exI [of _ "[]"], rule exI [of _ "[]"]) (simp add: py_max_len_def)
next
  case (snoc z zs)
  let ?b = "py_max_len x zs"
  from snoc obtain pre post where
    eq: "x # zs = pre @ ?b # post" and
    lt: "\<forall>y\<in>set pre. length y < length ?b" and
    le: "\<forall>y\<in>set post. length y \<le> length ?b" by blast
  show ?case
  proof (cases "length ?b < length z")
    case True
    have mz: "py_max_len x (zs @ [z]) = z" using True by (simp add: py_max_len_snoc)
    have "set (x # zs) = set pre \<union> {?b} \<union> set post" by (subst eq) auto
    then have all: "\<forall>y\<in>set (x # zs). length y < length z"
      using lt le True by auto
    show ?thesis
      unfolding mz
      by (rule exI [of _ "x # zs"], rule exI [of _ "[]"]) (use all in simp)
  next
    case False
    have mz: "py_max_len x (zs @ [z]) = ?b" using False by (simp add: py_max_len_snoc)
    have "x # zs @ [z] = pre @ ?b # (post @ [z])" using eq by simp
    moreover have "\<forall>y\<in>set (post @ [z]). length y \<le> length ?b" using le False by auto
    ultimately show ?thesis
      unfolding mz
      by (intro exI [of _ pre] exI [of _ "post @ [z]"] conjI lt)
  qed
qed

lemma py_max_len_mem: "py_max_len x xs \<in> set (x # xs)"
proof -
  obtain pre post where eq: "x # xs = pre @ py_max_len x xs # post"
    using py_max_len_split by blast
  have "py_max_len x xs \<in> set (pre @ py_max_len x xs # post)" by simp
  then show ?thesis by (simp only: eq [symmetric])
qed

lemma py_max_len_ge: "y \<in> set (x # xs) \<Longrightarrow> length y \<le> length (py_max_len x xs)"
proof -
  assume y: "y \<in> set (x # xs)"
  obtain pre post where eq: "x # xs = pre @ py_max_len x xs # post"
    and lt: "\<forall>y\<in>set pre. length y < length (py_max_len x xs)"
    and le: "\<forall>y\<in>set post. length y \<le> length (py_max_len x xs)"
    using py_max_len_split by blast
  from y have "y \<in> set (pre @ py_max_len x xs # post)" by (simp only: eq)
  then have "y \<in> set pre \<or> y = py_max_len x xs \<or> y \<in> set post" by auto
  with lt le show ?thesis by (auto simp: less_imp_le)
qed

lemma rstrip_prefix: "prefix (rstrip s) s"
proof -
  let ?t = "takeWhile py_isspace (rev s)" and ?d = "dropWhile py_isspace (rev s)"
  have "rev (?t @ ?d) = rev ?d @ rev ?t" by (rule rev_append)
  moreover have "?t @ ?d = rev s" by (rule takeWhile_dropWhile_id)
  ultimately have "rev (rev s) = rev ?d @ rev ?t" by (simp only:)
  then have "s = rstrip s @ rev ?t" by (simp only: rev_rev_ident rstrip_def)
  then show ?thesis by (rule prefixI)
qed

lemma length_rstrip: "length (rstrip s) \<le> length s"
  using rstrip_prefix by (rule prefix_length_le)

subsection \<open>The extractive summarizer\<close>

text \<open>
  Claim C8, as the code has it.  The extractive summarizer returns the empty string on
  empty input.  On non-empty input let \<open>longest\<close> be the first text of greatest
  length.  If its length is at most \<open>max_length\<close> the result is \<open>longest\<close>.
  Otherwise, for \<open>max_length \<ge> 0\<close>, the result is the first \<open>max_length\<close>
  characters of \<open>longest\<close> with trailing whitespace removed, followed by the marker
  \<open>...\<close>; the part before the marker is a prefix of \<open>longest\<close> and the whole
  result has at most \<open>max_length + 3\<close> characters.
\<close>

theorem RuleBasedSummarizer_summarize_spec:
  "RuleBasedSummarizer_summarize [] max_length = [] \<and>
   (\<exists>pre post. t # ts = pre @ py_max_len t ts # post \<and>
      (\<forall>y\<in>set pre. length y < length (py_max_len t ts)) \<and>
      (\<forall>y\<in>set post. length y \<le> length (py_max_len t ts))) \<and>
   (int (length (py_max_len t ts)) \<le> max_length \<longrightarrow>
      RuleBasedSummarizer_summarize (t # ts) max_length = py_max_len t ts) \<and>
   (0 \<le> max_length \<and> max_length < int (length (py_max_len t ts)) \<longrightarrow>
      RuleBasedSummarizer_summarize (t # ts) max_length =
        rstrip (take (nat max_length) (py_max_len t ts)) @ ''...'' \<and>
      prefix (rstrip (take (nat max_length) (py_max_len t ts))) (py_max_len t ts) \<and>
      int (length (RuleBasedSummarizer_summarize (t # ts) max_length)) \<le> max_length + 3)"
proof (intro conjI impI)
  show "RuleBasedSummarizer_summarize [] max_length = []"
    by (simp add: RuleBasedSummarizer_summarize_def)
  show "\<exists>pre post. t # ts = pre @ py_max_len t ts # post \<and>
      (\<forall>y\<in>set pre. length y < length (py_max_len t ts)) \<and>
      (\<forall>y\<in>set post. length y \<le> length (py_max_len t ts))"
    by (rule py_max_len_split)
next
  assume "int (length (py_max_len t ts)) \<le> max_length"
  then show "RuleBasedSummarizer_summarize (t # ts) max_length = py_max_len t ts"
    by (simp add: RuleBasedSummarizer_summarize_def)
next
  let ?l = "py_max_len t ts"
  let ?s = "rstrip (take (nat max_length) ?l)"
  assume a: "0 \<le> max_length \<and> max_length < int (length ?l)"
  have "length ?s \<le> length (take (nat max_length) ?l)" by (rule length_rstrip)
  then have len: "length ?s \<le> nat max_length" by simp
  with a have lt: "length ?s < length ?l" by linarith
  show r: "RuleBasedSummarizer_summarize (t # ts) max_length = ?s @ ''...''"
    using a lt by (simp add: RuleBasedSummarizer_summarize_def py_slice_to_def Let_def)
  have "prefix ?s (take (nat max_length) ?l)" by (rule rstrip_prefix)
  moreover have "prefix (take (nat max_length) ?l) ?l" by (rule take_is_prefix)
  ultimately show "prefix ?s ?l" by (rule prefix_order.trans)
  have "length (RuleBasedSummarizer_summarize (t # ts) max_length) = length ?s + 3"
    by (simp add: r)
  then show "int (length (RuleBasedSummarizer_summarize (t # ts) max_length)) \<le> max_length + 3"
    using len a by linarith
qed

theorem RuleBasedSummarizer_summarize_spec_witness:
  "RuleBasedSummarizer_summarize [''a'', ''a much longer string exceeding the max length threshold...''] 10
     = ''a much lon...'' \<and>
   RuleBasedSummarizer_summarize [''abc'', ''xyz'', ''de''] 5 = ''abc''"
proof -
  let ?long = "''a much longer string exceeding the max length threshold...''"
  have m1: "py_max_len ''a'' [?long] = ?long" by (simp add: py_max_len_def)
  have m2: "py_max_len ''abc'' [''xyz'', ''de''] = ''abc''" by (simp add: py_max_len_def)
  have "RuleBasedSummarizer_summarize [''a'', ?long] 10 = rstrip (take (nat 10) ?long) @ ''...''"
    using RuleBasedSummarizer_summarize_spec [of 10 "''a''" "[?long]", THEN conjunct2, THEN conjunct2, THEN conjunct2]
    by (simp add: m1)
  moreover have "rstrip (take (nat 10) ?long) = ''a much lon''"
    by (simp add: rstrip_def py_isspace_def)
  moreover have "RuleBasedSummarizer_summarize [''abc'', ''xyz'', ''de''] 5 = ''abc''"
    using RuleBasedSummarizer_summarize_spec [of 5 "''abc''" "[''xyz'', ''de'']", THEN conjunct2, THEN conjunct2, THEN conjunct1]
    by (simp add: m2)
  ultimately show ?thesis by simp
qed

text \<open>
  The result is not always the truncation to \<open>max_length\<close> characters followed by
  the marker: whitespace at the end of the truncated text is removed first.
\<close>

theorem RuleBasedSummarizer_truncation_counterexample:
  "RuleBasedSummarizer_summarize [''ab   cdef''] 4 \<noteq> take 4 ''ab   cdef'' @ ''...''"
  by (simp add: RuleBasedSummarizer_summarize_def py_max_len_def py_slice_to_def rstrip_def py_isspace_def)

text \<open>A negative \<open>max_length\<close> cuts from the end, and the bound does not hold.\<close>

lemma RuleBasedSummarizer_negative_max_length:
  "RuleBasedSummarizer_summarize [''abcdefghij''] (- 5) = ''abcde...''"
  by (simp add: RuleBasedSummarizer_summarize_def py_max_len_def py_slice_to_def rstrip_def py_isspace_def)

subsection \<open>summarize\_memories and the summary history\<close>

text \<open>
  Claim C10.  On an empty record list \<open>summarize_memories\<close> returns the result with
  empty summary, source count 0 and no source ids, and leaves the summarizer (and so its
  history) unchanged.  On a non-empty list exactly one entry, the returned result, is
  appended to the history; its source count is the number of records with a non-empty
  text, and its source ids are the ids of all records that have one, whether or not
  their text was skipped.
\<close>

theorem summarize_memories_history:
  "summarize_memories self [] max_length topic now =
     (\<lparr>sr_summary = [], sr_source_count = 0, sr_source_ids = [], sr_created_at = now,
       sr_topic = topic, sr_original_length = None\<rparr>, self) \<and>
   (memories \<noteq> [] \<longrightarrow>
      (let (result, self') = summarize_memories self memories max_length topic now in
         ms_summary_history self' = ms_summary_history self @ [result] \<and>
         ms_strategy self' = ms_strategy self \<and>
         sr_source_count result = length (filter has_text memories) \<and>
         sr_source_ids result = map the (filter (\<lambda>i. i \<noteq> None) (map m_id memories))))"
  by (simp add: summarize_memories_def Let_def map_filter_def filter_map comp_def)

theorem summarize_memories_history_witness:
  "(let ms = \<lparr>ms_strategy = RuleBasedSummarizer, ms_summary_history = []\<rparr>;
        memories = [\<lparr>m_text = Some ''likes tea'', m_id = Some 0\<rparr>,
                    \<lparr>m_text = Some [], m_id = Some 1\<rparr>,
                    \<lparr>m_text = None, m_id = Some 2\<rparr>,
                    \<lparr>m_text = Some ''x'', m_id = None\<rparr>];
        (result, ms') = summarize_memories ms memories 200 ''general'' ''t0''
    in memories \<noteq> [] \<and> ms_summary_history ms' = [result] \<and>
       sr_source_count result = 2 \<and> sr_source_ids result = [0, 1, 2] \<and>
       sr_summary result = ''likes tea'')"
  using summarize_memories_history [of "\<lparr>ms_strategy = RuleBasedSummarizer, ms_summary_history = []\<rparr>"
      200 "''general''" "''t0''"
      "[\<lparr>m_text = Some ''likes tea'', m_id = Some 0\<rparr>,
        \<lparr>m_text = Some [], m_id = Some 1\<rparr>,
        \<lparr>m_text = None, m_id = Some 2\<rparr>,
        \<lparr>m_text = Some ''x'', m_id = None\<rparr>]"]
  by (simp add: summarize_memories_def Let_def has_text_def map_filter_def
      RuleBasedSummarizer_summarize_def py_max_len_def)

section \<open>Properties of the long-term memory\<close>

subsection \<open>Loading\<close>

lemma py_max_eq_Max: "py_max x xs = Max (set (x # xs))"
proof -
  have "foldl max x xs = fold max xs x"
    by (simp add: foldl_conv_fold max.commute)
  moreover have "Max (set (x # xs)) = fold max xs x" by (rule Max.set_eq_fold)
  ultimately show ?thesis by (simp only: py_max_def)
qed

lemma load_index_cases:
  "load_index self index_file map_file = (ok, self') \<Longrightarrow>
     (ok = False \<and> self' = self \<and> (\<forall>ix. index_file \<noteq> Content ix)) \<or>
     (\<exists>ix. index_file = Content ix \<and> ok = False \<and> self' = self\<lparr>index := ix\<rparr>) \<or>
     (\<exists>ix md. index_file = Content ix \<and> map_file = Content md \<and> ok = True \<and>
        index self' = ix \<and> vector_dim self' = vector_dim self \<and>
        (case map fst (id_to_memory self') of
           [] \<Rightarrow> next_id self' = next_id self
         | k # ks \<Rightarrow> next_id self' = py_max k ks + 1))"
  by (auto simp: load_index_def Let_def split: file_read.splits if_splits prod.splits list.splits)

lemma ltm_one_eq:
  "ltm_one = \<lparr>vector_dim = 2, index = \<lparr>ix_d = 2, ix_vectors = [ [0, 0] ]\<rparr>,
     id_to_memory = [(0, \<lparr>mem_text = ''a'', mem_metadata = 0, mem_created_at = ''t0'', mem_id = 0,
                          mem_updated_at = None, mem_deleted_at = None\<rparr>)],
     next_id = 1, heap = \<lparr>objs = (\<lambda>_. [])(0 := []), brk = 1\<rparr>\<rparr>"
  by (simp add: ltm_one_def zero_embedder_def LongTermMemory_def empty_heap_def IndexFlatL2_def
      add_memory_def index_add_def new_dict_def)

lemma ltm_two_eq:
  "ltm_two = \<lparr>vector_dim = 2, index = \<lparr>ix_d = 2, ix_vectors = [ [0, 0], [0, 0] ]\<rparr>,
     id_to_memory = [(0, \<lparr>mem_text = ''a'', mem_metadata = 0, mem_created_at = ''t0'', mem_id = 0,
                          mem_updated_at = None, mem_deleted_at = None\<rparr>),
                     (1, \<lparr>mem_text = ''b'', mem_metadata = 1, mem_created_at = ''t1'', mem_id = 1,
                          mem_updated_at = None, mem_deleted_at = None\<rparr>)],
     next_id = 2, heap = \<lparr>objs = (\<lambda>_. [])(0 := [], 1 := []), brk = 2\<rparr>\<rparr>"
  by (simp add: ltm_two_def zero_embedder_def LongTermMemory_def empty_heap_def IndexFlatL2_def
      add_memory_def index_add_def new_dict_def)

text \<open>
  What a failed load leaves behind.  When \<open>load_index\<close> returns failure the record
  table, the next-id counter, the stored dicts and the dimension are what they were
  before the call.  The index is unchanged when the index file could not be read; when
  the index file was read and the failure came later (map file missing, unreadable, or
  with a key that is not an integer) the index is the one read from the file.
\<close>

lemma load_index_failure:
  "load_index self index_file map_file = (False, self') \<Longrightarrow>
     id_to_memory self' = id_to_memory self \<and> next_id self' = next_id self \<and>
     heap self' = heap self \<and> vector_dim self' = vector_dim self \<and>
     index self' = (case index_file of Content ix \<Rightarrow> ix | _ \<Rightarrow> index self)"
  by (drule load_index_cases) (auto split: file_read.splits)

lemma load_index_failure_example:
  "load_index ltm_one (Content (IndexFlatL2 2)) FileNotFound = (False, ltm_one\<lparr>index := IndexFlatL2 2\<rparr>) \<and>
   id_to_memory (ltm_one\<lparr>index := IndexFlatL2 2\<rparr>) = id_to_memory ltm_one \<and>
   next_id (ltm_one\<lparr>index := IndexFlatL2 2\<rparr>) = next_id ltm_one \<and>
   index (ltm_one\<lparr>index := IndexFlatL2 2\<rparr>) = IndexFlatL2 2"
proof -
  have h: "load_index ltm_one (Content (IndexFlatL2 2)) FileNotFound = (False, ltm_one\<lparr>index := IndexFlatL2 2\<rparr>)"
    by (simp add: load_index_def)
  show ?thesis using h load_index_failure [OF h] by simp
qed

text \<open>
  Claim C2 says that a failed \<open>load_index\<close> leaves the index, the record table and
  the next-id counter exactly as they were.  The code assigns the index as soon as the
  index file is read, before it opens the map file, and undoes nothing when the map file
  then fails.  With one stored memory, an index file holding an empty index and no map
  file, the call returns failure, the record table and the counter are unchanged, the
  index has been replaced by the empty one, and \<open>get_stats\<close>, which reported one vector
  and one record before the call, reports no vector and one record after it.
\<close>

theorem load_index_failure_replaces_index:
  "fst (load_index ltm_one (Content (IndexFlatL2 2)) FileNotFound) = False \<and>
   id_to_memory (snd (load_index ltm_one (Content (IndexFlatL2 2)) FileNotFound))
     = id_to_memory ltm_one \<and>
   next_id (snd (load_index ltm_one (Content (IndexFlatL2 2)) FileNotFound)) = next_id ltm_one \<and>
   index ltm_one = \<lparr>ix_d = 2, ix_vectors = [ [0, 0] ]\<rparr> \<and>
   index (snd (load_index ltm_one (Content (IndexFlatL2 2)) FileNotFound))
     = \<lparr>ix_d = 2, ix_vectors = []\<rparr> \<and>
   get_stats ltm_one
     = Inr \<lparr>total_memories = 1, index_size = 1, st_vector_dim = 2,
            memories_by_type = [(PStr ''unknown'', 1)]\<rparr> \<and>
   get_stats (snd (load_index ltm_one (Content (IndexFlatL2 2)) FileNotFound))
     = Inr \<lparr>total_memories = 1, index_size = 0, st_vector_dim = 2,
            memories_by_type = [(PStr ''unknown'', 1)]\<rparr>"
  by (simp add: load_index_def ltm_one_eq IndexFlatL2_def get_stats_def count_by_type_def
      memory_type_def ntotal_def)

text \<open>
  After a successful load the counter is the greatest loaded id plus one when the
  loaded table is not empty; when it is empty the counter keeps its old value.
\<close>

lemma load_index_next_id:
  "load_index self index_file map_file = (True, self') \<Longrightarrow>
     (id_to_memory self' \<noteq> [] \<longrightarrow> next_id self' = Max (fst ` set (id_to_memory self')) + 1) \<and>
     (id_to_memory self' = [] \<longrightarrow> next_id self' = next_id self)"
proof -
  assume "load_index self index_file map_file = (True, self')"
  then have c: "(case map fst (id_to_memory self') of
           [] \<Rightarrow> next_id self' = next_id self
         | k # ks \<Rightarrow> next_id self' = py_max k ks + 1)"
    by (auto dest: load_index_cases)
  show ?thesis
  proof (cases "map fst (id_to_memory self')")
    case Nil
    with c show ?thesis by simp
  next
    case (Cons k ks)
    have "set (k # ks) = fst ` set (id_to_memory self')"
      by (simp only: Cons [symmetric] set_map)
    with c Cons show ?thesis by (auto simp: py_max_eq_Max simp del: set_simps)
  qed
qed

text \<open>
  Claim C3 at an empty persisted table: an instance that has stored two memories has
  counter 2; loading an empty index and an empty map succeeds and empties the table,
  and the counter is still 2, not 0.
\<close>

theorem load_index_empty_keeps_counter:
  "load_index ltm_two (Content (IndexFlatL2 2)) (Content []) =
     (True, ltm_two\<lparr>index := IndexFlatL2 2, id_to_memory := []\<rparr>) \<and>
   next_id (ltm_two\<lparr>index := IndexFlatL2 2, id_to_memory := []\<rparr>) = 2 \<and>
   next_id ltm_two = 2"
  by (simp add: load_index_def dict_update_def ltm_two_eq)

subsection \<open>Ids and the pairing of records and vectors\<close>

lemma map_of_Some_key:
  assumes "map_of al k = Some v"
  shows "k \<in> fst ` set al"
proof (rule ccontr)
  assume "k \<notin> fst ` set al"
  then have "map_of al k = None" by (simp add: map_of_eq_None_iff)
  with assms show False by simp
qed

lemma keys_update_existing:
  "map_of al k = Some v \<Longrightarrow> map fst (AList.update k w al) = map fst al"
  using map_of_Some_key [of al k v] by (simp add: update_keys)

lemma length_update_existing:
  "map_of al k = Some v \<Longrightarrow> length (AList.update k w al) = length al"
proof -
  assume "map_of al k = Some v"
  then have "map fst (AList.update k w al) = map fst al" by (rule keys_update_existing)
  then have "length (map fst (AList.update k w al)) = length (map fst al)" by simp
  then show ?thesis by simp
qed

lemma length_update_new:
  "k \<notin> set (map fst al) \<Longrightarrow> length (AList.update k w al) = Suc (length al)"
proof -
  assume "k \<notin> set (map fst al)"
  then have "map fst (AList.update k w al) = map fst al @ [k]" by (simp add: update_keys)
  then have "length (map fst (AList.update k w al)) = length (map fst al @ [k])" by simp
  then show ?thesis by simp
qed

lemma add_memory_Inr:
  assumes "add_memory E s t md now = Inr (i, s')"
  shows "i = next_id s" and "next_id s' = next_id s + 1"
    and "\<exists>m. id_to_memory s' = AList.update (next_id s) m (id_to_memory s)"
    and "ntotal (index s') = Suc (ntotal (index s))"
    and "vector_dim s' = vector_dim s"
  using assms
  by (auto simp: add_memory_def Let_def index_add_def ntotal_def
      split: option.splits prod.splits if_splits)

lemma add_memory_inv:
  assumes "add_memory E s t md now = Inr (i, s')" and "ltm_inv s"
  shows "ltm_inv s'"
proof -
  from assms(1) obtain m where tbl: "id_to_memory s' = AList.update (next_id s) m (id_to_memory s)"
    using add_memory_Inr(3) by blast
  have nx: "next_id s' = next_id s + 1" using assms(1) by (rule add_memory_Inr(2))
  have nt: "ntotal (index s') = Suc (ntotal (index s))" using assms(1) by (rule add_memory_Inr(4))
  from assms(2) have d: "distinct (map fst (id_to_memory s))"
    and b: "\<forall>k\<in>set (map fst (id_to_memory s)). k < next_id s"
    and sz: "ntotal (index s) = length (id_to_memory s)"
    by (auto simp: ltm_inv_def keys_below_next_def list_all_iff)
  from b have fresh: "next_id s \<notin> set (map fst (id_to_memory s))" by auto
  then have keys: "map fst (id_to_memory s') = map fst (id_to_memory s) @ [next_id s]"
    by (simp add: tbl update_keys)
  have "distinct (map fst (id_to_memory s'))" using d fresh by (simp add: keys)
  moreover have "\<forall>k\<in>set (map fst (id_to_memory s')). k < next_id s'"
    using b by (auto simp: keys nx)
  moreover have "ntotal (index s') = length (id_to_memory s')"
    using sz fresh by (simp add: nt tbl length_update_new)
  ultimately show ?thesis by (simp add: ltm_inv_def keys_below_next_def list_all_iff)
qed

lemma update_memory_frame:
  "index (snd (update_memory s i t md now)) = index s \<and>
   next_id (snd (update_memory s i t md now)) = next_id s \<and>
   vector_dim (snd (update_memory s i t md now)) = vector_dim s \<and>
   map fst (id_to_memory (snd (update_memory s i t md now))) = map fst (id_to_memory s)"
proof (cases "map_of (id_to_memory s) i")
  case None
  then show ?thesis by (simp add: update_memory_def)
next
  case (Some m)
  then show ?thesis
    by (simp add: update_memory_def Let_def keys_update_existing [OF Some])
qed

lemma delete_memory_frame:
  "index (snd (delete_memory s i now)) = index s \<and>
   next_id (snd (delete_memory s i now)) = next_id s \<and>
   vector_dim (snd (delete_memory s i now)) = vector_dim s \<and>
   heap (snd (delete_memory s i now)) = heap s \<and>
   map fst (id_to_memory (snd (delete_memory s i now))) = map fst (id_to_memory s)"
proof (cases "map_of (id_to_memory s) i")
  case None
  then show ?thesis by (simp add: delete_memory_def)
next
  case (Some m)
  then show ?thesis
    by (simp add: delete_memory_def keys_update_existing [OF Some])
qed

lemma ltm_inv_keys:
  assumes "ltm_inv s" and "index s' = index s" and "next_id s' = next_id s"
    and k: "map fst (id_to_memory s') = map fst (id_to_memory s)"
  shows "ltm_inv s'"
proof -
  from k have "length (map fst (id_to_memory s')) = length (map fst (id_to_memory s))"
    by (rule arg_cong)
  then have "length (id_to_memory s') = length (id_to_memory s)" by simp
  with assms show ?thesis by (simp add: ltm_inv_def keys_below_next_def)
qed

lemma do_call_inv:
  assumes "ltm_inv s" and "do_call E s c = (r, s')"
  shows "ltm_inv s'" and "next_id s \<le> next_id s'"
    and "r = Some i \<Longrightarrow> i = next_id s \<and> next_id s' = next_id s + 1"
proof -
  have "ltm_inv s' \<and> next_id s \<le> next_id s' \<and>
        (r = Some i \<longrightarrow> i = next_id s \<and> next_id s' = next_id s + 1)"
  proof (cases c)
    case (NewDict d)
    with assms(2) have s': "s' = s\<lparr>heap := snd (new_dict d (heap s))\<rparr>" and r: "r = None"
      by simp_all
    from assms(1) have "ltm_inv s'" by (simp add: s' ltm_inv_def keys_below_next_def)
    then show ?thesis by (simp add: r s')
  next
    case (AddMemory t md now)
    show ?thesis
    proof (cases "add_memory E s t md now")
      case (Inl e)
      with assms(2) AddMemory have "s' = s" and "r = None" by simp_all
      with assms(1) show ?thesis by simp
    next
      case (Inr p)
      obtain j s1 where p: "p = (j, s1)" by (cases p)
      with Inr have am: "add_memory E s t md now = Inr (j, s1)" by simp
      with assms(2) AddMemory have rs: "r = Some j" "s' = s1" by simp_all
      from am assms(1) have "ltm_inv s1" by (rule add_memory_inv)
      moreover from am have "j = next_id s" by (rule add_memory_Inr(1))
      moreover from am have "next_id s1 = next_id s + 1" by (rule add_memory_Inr(2))
      ultimately show ?thesis using rs by simp
    qed
  next
    case (UpdateMemory k t md now)
    with assms(2) have s': "s' = snd (update_memory s k t md now)" and r: "r = None"
      by simp_all
    note f = update_memory_frame [of s k t md now, folded s']
    have "ltm_inv s'" using assms(1) f by (intro ltm_inv_keys [of s s']) simp_all
    moreover have "next_id s' = next_id s" using f by simp
    ultimately show ?thesis using r by simp
  next
    case (DeleteMemory k now)
    with assms(2) have s': "s' = snd (delete_memory s k now)" and r: "r = None"
      by simp_all
    note f = delete_memory_frame [of s k now, folded s']
    have "ltm_inv s'" using assms(1) f by (intro ltm_inv_keys [of s s']) simp_all
    moreover have "next_id s' = next_id s" using f by simp
    ultimately show ?thesis using r by simp
  qed
  then show "ltm_inv s'" and "next_id s \<le> next_id s'"
    and "r = Some i \<Longrightarrow> i = next_id s \<and> next_id s' = next_id s + 1" by simp_all
qed

lemma run_calls_inv:
  "ltm_inv s \<Longrightarrow> run_calls E s cs = (ids, s') \<Longrightarrow>
     ltm_inv s' \<and> next_id s \<le> next_id s' \<and> distinct ids \<and>
     (\<forall>i\<in>set ids. next_id s \<le> i \<and> i < next_id s')"
proof (induction cs arbitrary: s ids s')
  case Nil
  then show ?case by simp
next
  case (Cons c cs)
  obtain r s1 where dc: "do_call E s c = (r, s1)" by (cases "do_call E s c")
  obtain ids1 s2 where rc: "run_calls E s1 cs = (ids1, s2)" by (cases "run_calls E s1 cs")
  from Cons.prems(2) dc rc have ids: "ids = (case r of None \<Rightarrow> ids1 | Some i \<Rightarrow> i # ids1)"
    and s': "s' = s2" by simp_all
  from Cons.prems(1) dc have inv1: "ltm_inv s1" and le1: "next_id s \<le> next_id s1"
    by (rule do_call_inv)+
  from Cons.IH [OF inv1 rc] have inv2: "ltm_inv s2" and le2: "next_id s1 \<le> next_id s2"
    and d1: "distinct ids1" and r1: "\<forall>i\<in>set ids1. next_id s1 \<le> i \<and> i < next_id s2" by simp_all
  show ?case
  proof (cases r)
    case None
    with ids have e: "ids = ids1" by simp
    have "next_id s \<le> next_id s2" using le1 le2 by linarith
    moreover have "\<forall>i\<in>set ids1. next_id s \<le> i \<and> i < next_id s2"
      using r1 le1 by fastforce
    ultimately show ?thesis using inv2 d1 by (simp add: e s')
  next
    case (Some i)
    have i: "i = next_id s \<and> next_id s1 = next_id s + 1"
      using Cons.prems(1) dc Some by (rule do_call_inv(3))
    from Some ids have e: "ids = i # ids1" by simp
    have "next_id s \<le> next_id s2" using le1 le2 by linarith
    moreover have "\<forall>j\<in>set ids1. next_id s \<le> j \<and> j < next_id s2"
      using r1 le1 by fastforce
    moreover have "i \<notin> set ids1" using r1 i by fastforce
    moreover have "i < next_id s2" using i le2 by linarith
    ultimately show ?thesis using inv2 d1 i by (simp add: e s')
  qed
qed

lemma LongTermMemory_inv: "ltm_inv (LongTermMemory d h)"
  by (simp add: ltm_inv_def keys_below_next_def LongTermMemory_def IndexFlatL2_def ntotal_def)

subsection \<open>get\_stats\<close>

lemma get_stats_Inr:
  "get_stats s = Inr st \<Longrightarrow>
     total_memories st = length (id_to_memory s) \<and> index_size st = ntotal (index s) \<and>
     st_vector_dim st = vector_dim s"
  by (auto simp: get_stats_def split: sum.splits)

lemma count_types_returns:
  "(\<exists>c. count_types h counts mems = Inr c) = list_all (\<lambda>m. hashable (memory_type h m)) mems"
  by (induction mems arbitrary: counts) (simp_all add: Let_def)

lemma get_stats_returns:
  "(\<exists>st. get_stats s = Inr st) = types_hashable s"
proof -
  have "(\<exists>st. get_stats s = Inr st) = (\<exists>c. count_by_type s = Inr c)"
    by (cases "count_by_type s") (simp_all add: get_stats_def)
  also have "\<dots> = types_hashable s"
    by (simp add: count_by_type_def count_types_returns types_hashable_def list_all_iff)
  finally show ?thesis .
qed

lemma ltm_list_type_eq:
  "ltm_list_type = \<lparr>vector_dim = 2, index = \<lparr>ix_d = 2, ix_vectors = [ [0, 0] ]\<rparr>,
     id_to_memory = [(0, \<lparr>mem_text = ''a'', mem_metadata = 0, mem_created_at = ''t0'', mem_id = 0,
                          mem_updated_at = None, mem_deleted_at = None\<rparr>)],
     next_id = 1,
     heap = \<lparr>objs = (\<lambda>_. [])(0 := [(''type'', PList [PStr ''fact'', PStr ''rule''])]), brk = 1\<rparr>\<rparr>"
  by (simp add: ltm_list_type_def zero_embedder_def LongTermMemory_def empty_heap_def IndexFlatL2_def
      add_memory_def index_add_def new_dict_def)

text \<open>
  Claim C5 says that after every call \<open>get_stats\<close> reports
  \<open>index_size = total_memories\<close>.  It does not always report: a memory added with the
  metadata \<open>{'type': ['fact', 'rule']}\<close> is stored under id 0, and \<open>get_stats\<close>
  then raises TypeError, since the histogram cannot be keyed by a list.
\<close>

theorem get_stats_unhashable_type_counterexample:
  "run_calls zero_embedder (LongTermMemory 2 empty_heap)
       [NewDict [(''type'', PList [PStr ''fact'', PStr ''rule''])], AddMemory ''a'' (Some 0) ''t0'']
     = ([0], ltm_list_type) \<and>
   get_stats ltm_list_type = Inl TypeError"
  by (simp add: ltm_list_type_def zero_embedder_def LongTermMemory_def empty_heap_def IndexFlatL2_def
      add_memory_def index_add_def new_dict_def get_stats_def count_by_type_def memory_type_def)

text \<open>
  Claim C5, as the code has it.  Start from a fresh long-term memory and perform any
  finite sequence of \<open>add_memory\<close>, \<open>update_memory\<close> and \<open>delete_memory\<close> calls
  (the caller may create metadata dicts in between, and calls may fail).  The ids
  returned by \<open>add_memory\<close> are pairwise distinct.  After every call, that is after
  every prefix of the sequence, the index holds exactly one vector per record;
  \<open>get_stats\<close> returns exactly when every stored record has a hashable \<open>type\<close>, and
  whenever it returns it reports \<open>index_size = total_memories\<close>, both being the number
  of records.
\<close>

theorem add_memory_ids_distinct_and_index_paired:
  "distinct (fst (run_calls E (LongTermMemory d h) calls)) \<and>
   (\<forall>n. ntotal (index (snd (run_calls E (LongTermMemory d h) (take n calls))))
           = length (id_to_memory (snd (run_calls E (LongTermMemory d h) (take n calls)))) \<and>
        ((\<exists>st. get_stats (snd (run_calls E (LongTermMemory d h) (take n calls))) = Inr st)
           = types_hashable (snd (run_calls E (LongTermMemory d h) (take n calls)))) \<and>
        (\<forall>st. get_stats (snd (run_calls E (LongTermMemory d h) (take n calls))) = Inr st \<longrightarrow>
           index_size st = total_memories st \<and>
           total_memories st
             = length (id_to_memory (snd (run_calls E (LongTermMemory d h) (take n calls))))))"
proof
  obtain ids s where r: "run_calls E (LongTermMemory d h) calls = (ids, s)"
    by (cases "run_calls E (LongTermMemory d h) calls")
  from run_calls_inv [OF LongTermMemory_inv r] show "distinct (fst (run_calls E (LongTermMemory d h) calls))"
    by (simp add: r)
next
  show "\<forall>n. ntotal (index (snd (run_calls E (LongTermMemory d h) (take n calls))))
           = length (id_to_memory (snd (run_calls E (LongTermMemory d h) (take n calls)))) \<and>
        ((\<exists>st. get_stats (snd (run_calls E (LongTermMemory d h) (take n calls))) = Inr st)
           = types_hashable (snd (run_calls E (LongTermMemory d h) (take n calls)))) \<and>
        (\<forall>st. get_stats (snd (run_calls E (LongTermMemory d h) (take n calls))) = Inr st \<longrightarrow>
           index_size st = total_memories st \<and>
           total_memories st
             = length (id_to_memory (snd (run_calls E (LongTermMemory d h) (take n calls)))))"
  proof (intro allI conjI impI)
    fix n
    obtain ids s where r: "run_calls E (LongTermMemory d h) (take n calls) = (ids, s)"
      by (cases "run_calls E (LongTermMemory d h) (take n calls)")
    from run_calls_inv [OF LongTermMemory_inv r] have "ltm_inv s" by simp
    then have p: "ntotal (index s) = length (id_to_memory s)" by (simp add: ltm_inv_def)
    then show "ntotal (index (snd (run_calls E (LongTermMemory d h) (take n calls))))
           = length (id_to_memory (snd (run_calls E (LongTermMemory d h) (take n calls))))"
      by (simp add: r)
    show "(\<exists>st. get_stats (snd (run_calls E (LongTermMemory d h) (take n calls))) = Inr st)
           = types_hashable (snd (run_calls E (LongTermMemory d h) (take n calls)))"
      by (rule get_stats_returns)
    fix st
    assume "get_stats (snd (run_calls E (LongTermMemory d h) (take n calls))) = Inr st"
    then have g: "get_stats s = Inr st" by (simp add: r)
    from get_stats_Inr [OF g] p show "index_size st = total_memories st" by simp
    from get_stats_Inr [OF g] show "total_memories st
             = length (id_to_memory (snd (run_calls E (LongTermMemory d h) (take n calls))))"
      by (simp add: r)
  qed
qed

theorem add_memory_ids_distinct_and_index_paired_witness:
  "fst (run_calls zero_embedder (LongTermMemory 2 empty_heap)
          [AddMemory ''a'' None ''t0'', AddMemory ''b'' None ''t1'']) = [0, 1] \<and>
   distinct [0, 1 :: int] \<and>
   types_hashable ltm_two \<and>
   get_stats ltm_two
     = Inr \<lparr>total_memories = 2, index_size = 2, st_vector_dim = 2,
            memories_by_type = [(PStr ''unknown'', 2)]\<rparr> \<and>
   index_size \<lparr>total_memories = 2, index_size = 2, st_vector_dim = 2,
               memories_by_type = [(PStr ''unknown'', 2)]\<rparr>
     = total_memories \<lparr>total_memories = 2, index_size = 2, st_vector_dim = 2,
                       memories_by_type = [(PStr ''unknown'', 2)]\<rparr> \<and>
   ntotal (index ltm_two) = length (id_to_memory ltm_two)"
proof -
  let ?calls = "[AddMemory ''a'' None ''t0'', AddMemory ''b'' None ''t1'']"
  have ids: "fst (run_calls zero_embedder (LongTermMemory 2 empty_heap) ?calls) = [0, 1]"
    by (simp add: zero_embedder_def LongTermMemory_def empty_heap_def IndexFlatL2_def
        add_memory_def index_add_def new_dict_def)
  have s: "snd (run_calls zero_embedder (LongTermMemory 2 empty_heap) (take 2 ?calls)) = ltm_two"
    by (simp add: ltm_two_def)
  have g: "get_stats ltm_two
     = Inr \<lparr>total_memories = 2, index_size = 2, st_vector_dim = 2,
            memories_by_type = [(PStr ''unknown'', 2)]\<rparr>"
    by (simp add: ltm_two_eq get_stats_def count_by_type_def memory_type_def ntotal_def)
  note t = add_memory_ids_distinct_and_index_paired [of zero_embedder 2 empty_heap ?calls]
  from t have a: "distinct (fst (run_calls zero_embedder (LongTermMemory 2 empty_heap) ?calls))"
    by (rule conjunct1)
  note u = t [THEN conjunct2, THEN spec [of _ 2]]
  from u have b: "ntotal (index ltm_two) = length (id_to_memory ltm_two)"
    and c: "(\<exists>st. get_stats ltm_two = Inr st) = types_hashable ltm_two"
    and e: "\<forall>st. get_stats ltm_two = Inr st \<longrightarrow> index_size st = total_memories st"
    unfolding s by simp_all
  from c g have th: "types_hashable ltm_two" by simp
  from e g have "index_size \<lparr>total_memories = 2, index_size = 2, st_vector_dim = 2,
               memories_by_type = [(PStr ''unknown'', 2)]\<rparr>
     = total_memories \<lparr>total_memories = 2, index_size = 2, st_vector_dim = 2,
                       memories_by_type = [(PStr ''unknown'', 2)]\<rparr>"
    by blast
  with a ids b th g show ?thesis by simp
qed

subsection \<open>update\_memory\<close>

lemma update_memory_missing:
  "get_memory s i = None \<Longrightarrow> update_memory s i t md now = (False, s)"
  by (simp add: update_memory_def get_memory_def)

lemma update_memory_found:
  assumes "get_memory s i = Some m"
  shows "fst (update_memory s i t md now) = True"
    and "id_to_memory (snd (update_memory s i t md now)) =
           AList.update i
             ((case t of None \<Rightarrow> m | Some x \<Rightarrow> if x = [] then m else m\<lparr>mem_text := x\<rparr>)
                \<lparr>mem_updated_at := Some now\<rparr>)
             (id_to_memory s)"
    and "a \<noteq> mem_metadata m \<Longrightarrow>
           objs (heap (snd (update_memory s i t md now))) a = objs (heap s) a"
  using assms
  by (simp_all add: update_memory_def get_memory_def Let_def split: option.split)

lemma update_memory_other_record:
  "j \<noteq> i \<Longrightarrow> get_memory (snd (update_memory s i t md now)) j = get_memory s j"
proof (cases "get_memory s i")
  case None
  then show ?thesis by (simp add: update_memory_missing)
next
  case (Some m)
  assume ji: "j \<noteq> i"
  then show ?thesis
    by (simp add: get_memory_def update_memory_found(2) [OF Some] update_conv')
qed

lemma update_memory_other_view:
  assumes ji: "j \<noteq> i"
    and ns: "\<And>m m'. get_memory s i = Some m \<Longrightarrow> get_memory s j = Some m' \<Longrightarrow>
                mem_metadata m' \<noteq> mem_metadata m"
  shows "memory_view (snd (update_memory s i t md now)) j = memory_view s j"
proof (cases "get_memory s i")
  case None
  then show ?thesis by (simp add: update_memory_missing)
next
  case (Some m)
  let ?s' = "snd (update_memory s i t md now)"
  have g: "get_memory ?s' j = get_memory s j" using ji by (rule update_memory_other_record)
  show ?thesis
  proof (cases "get_memory s j")
    case None
    with g show ?thesis by (simp add: memory_view_def)
  next
    case (Some m')
    with ns \<open>get_memory s i = Some m\<close> have "mem_metadata m' \<noteq> mem_metadata m" by blast
    then have "objs (heap ?s') (mem_metadata m') = objs (heap s) (mem_metadata m')"
      by (rule update_memory_found(3) [OF \<open>get_memory s i = Some m\<close>])
    with g Some show ?thesis by (simp add: memory_view_def)
  qed
qed

lemma update_memory_empty_text:
  assumes "memory_view s i = Some v"
  shows "fst (update_memory s i (Some []) None now) = True \<and>
         memory_view (snd (update_memory s i (Some []) None now)) i
           = Some (v\<lparr>mem_updated_at := Some now\<rparr>)"
proof -
  from assms obtain m where m: "get_memory s i = Some m"
    and v: "v = \<lparr>mem_text = mem_text m, mem_metadata = objs (heap s) (mem_metadata m),
              mem_created_at = mem_created_at m, mem_id = mem_id m,
              mem_updated_at = mem_updated_at m, mem_deleted_at = mem_deleted_at m\<rparr>"
    by (auto simp: memory_view_def)
  from m have mo: "map_of (id_to_memory s) i = Some m" by (simp add: get_memory_def)
  show ?thesis
    by (simp add: update_memory_def mo v memory_view_def get_memory_def update_conv')
qed

text \<open>
  Claim C9, as the code has it.  \<open>update_memory\<close> on an id that is not in the
  table returns failure and changes nothing.  On an existing id, an empty-string text
  and no metadata give success, and the record as the caller sees it is the old one
  with \<open>updated_at\<close> stamped.  Every call leaves the index and the next-id counter
  unchanged, and every other table entry as it was.  Another record reads the same
  through \<open>get_memory\<close> afterwards provided its metadata dict is not the very dict
  object of the updated record.
\<close>

theorem update_memory_frame_effect:
  "(get_memory s i = None \<longrightarrow> update_memory s i t md now = (False, s)) \<and>
   (\<forall>v. memory_view s i = Some v \<longrightarrow>
      fst (update_memory s i (Some []) None now) = True \<and>
      memory_view (snd (update_memory s i (Some []) None now)) i
        = Some (v\<lparr>mem_updated_at := Some now\<rparr>)) \<and>
   index (snd (update_memory s i t md now)) = index s \<and>
   next_id (snd (update_memory s i t md now)) = next_id s \<and>
   (\<forall>j. j \<noteq> i \<longrightarrow> get_memory (snd (update_memory s i t md now)) j = get_memory s j) \<and>
   (\<forall>j. j \<noteq> i \<longrightarrow>
      (\<forall>m m'. get_memory s i = Some m \<longrightarrow> get_memory s j = Some m' \<longrightarrow>
          mem_metadata m' \<noteq> mem_metadata m) \<longrightarrow>
      memory_view (snd (update_memory s i t md now)) j = memory_view s j)"
proof (intro conjI allI impI)
  assume "get_memory s i = None"
  then show "update_memory s i t md now = (False, s)" by (rule update_memory_missing)
next
  fix v assume v: "memory_view s i = Some v"
  from update_memory_empty_text [OF v]
  show "fst (update_memory s i (Some []) None now) = True"
    and "memory_view (snd (update_memory s i (Some []) None now)) i
           = Some (v\<lparr>mem_updated_at := Some now\<rparr>)" by simp_all
next
  show "index (snd (update_memory s i t md now)) = index s"
    using update_memory_frame [of s i t md now] by simp
  show "next_id (snd (update_memory s i t md now)) = next_id s"
    using update_memory_frame [of s i t md now] by simp
next
  fix j :: int assume "j \<noteq> i"
  then show "get_memory (snd (update_memory s i t md now)) j = get_memory s j"
    by (rule update_memory_other_record)
next
  fix j :: int
  assume ji: "j \<noteq> i"
    and ns: "\<forall>m m'. get_memory s i = Some m \<longrightarrow> get_memory s j = Some m' \<longrightarrow>
                mem_metadata m' \<noteq> mem_metadata m"
  show "memory_view (snd (update_memory s i t md now)) j = memory_view s j"
    using ji by (rule update_memory_other_view) (use ns in blast)
qed

lemma ltm_shared_eq:
  "ltm_shared = \<lparr>vector_dim = 2, index = \<lparr>ix_d = 2, ix_vectors = [ [0, 0], [0, 0] ]\<rparr>,
     id_to_memory = [(0, \<lparr>mem_text = ''a'', mem_metadata = 0, mem_created_at = ''t0'', mem_id = 0,
                          mem_updated_at = None, mem_deleted_at = None\<rparr>),
                     (1, \<lparr>mem_text = ''b'', mem_metadata = 0, mem_created_at = ''t1'', mem_id = 1,
                          mem_updated_at = None, mem_deleted_at = None\<rparr>)],
     next_id = 2, heap = \<lparr>objs = (\<lambda>_. [])(0 := [(''type'', PStr ''fact'')]), brk = 1\<rparr>\<rparr>"
  by (simp add: ltm_shared_def zero_embedder_def LongTermMemory_def empty_heap_def IndexFlatL2_def
      add_memory_def index_add_def new_dict_def)

text \<open>
  \<open>add_memory\<close> keeps the caller's metadata dict, not a copy.  When two memories
  were added with the same dict, updating the metadata of the first changes what the
  second shows.
\<close>

theorem update_memory_shared_metadata_counterexample:
  "memory_view ltm_shared 1 =
     Some \<lparr>mem_text = ''b'', mem_metadata = [(''type'', PStr ''fact'')], mem_created_at = ''t1'',
           mem_id = 1, mem_updated_at = None, mem_deleted_at = None\<rparr> \<and>
   memory_view (snd (update_memory ltm_shared 0 None (Some [(''k'', PInt 1)]) ''t2'')) 1 =
     Some \<lparr>mem_text = ''b'', mem_metadata = [(''type'', PStr ''fact''), (''k'', PInt 1)],
           mem_created_at = ''t1'', mem_id = 1, mem_updated_at = None, mem_deleted_at = None\<rparr> \<and>
   memory_view (snd (update_memory ltm_shared 0 None (Some [(''k'', PInt 1)]) ''t2'')) 1
     \<noteq> memory_view ltm_shared 1"
  by (simp add: ltm_shared_eq update_memory_def memory_view_def get_memory_def dict_update_def)

theorem update_memory_frame_effect_witness:
  "get_memory ltm_two 5 = None \<and>
   update_memory ltm_two 5 (Some ''x'') None ''t2'' = (False, ltm_two) \<and>
   memory_view ltm_two 0 =
     Some \<lparr>mem_text = ''a'', mem_metadata = [], mem_created_at = ''t0'', mem_id = 0,
           mem_updated_at = None, mem_deleted_at = None\<rparr> \<and>
   memory_view (snd (update_memory ltm_two 0 (Some []) None ''t2'')) 0 =
     Some \<lparr>mem_text = ''a'', mem_metadata = [], mem_created_at = ''t0'', mem_id = 0,
           mem_updated_at = Some ''t2'', mem_deleted_at = None\<rparr> \<and>
   (1::int) \<noteq> 0 \<and>
   map_option mem_metadata (get_memory ltm_two 0) = Some 0 \<and>
   map_option mem_metadata (get_memory ltm_two 1) = Some 1 \<and>
   memory_view (snd (update_memory ltm_two 0 (Some ''x'') (Some [(''k'', PInt 1)]) ''t2'')) 1
     = memory_view ltm_two 1"
proof -
  have d: "map_option mem_metadata (get_memory ltm_two 0) = Some 0"
    "map_option mem_metadata (get_memory ltm_two 1) = Some 1"
    by (simp_all add: ltm_two_eq get_memory_def)
  have a: "get_memory ltm_two 5 = None" by (simp add: ltm_two_eq get_memory_def)
  have b: "memory_view ltm_two 0 =
     Some \<lparr>mem_text = ''a'', mem_metadata = [], mem_created_at = ''t0'', mem_id = 0,
           mem_updated_at = None, mem_deleted_at = None\<rparr>"
    by (simp add: ltm_two_eq memory_view_def get_memory_def)
  have c: "\<forall>m m'. get_memory ltm_two 0 = Some m \<longrightarrow> get_memory ltm_two 1 = Some m' \<longrightarrow>
       mem_metadata m' \<noteq> mem_metadata m"
    by (simp add: ltm_two_eq get_memory_def)
  note t1 = update_memory_frame_effect [of ltm_two 5 "Some ''x''" None "''t2''"]
  note t2 = update_memory_frame_effect [of ltm_two 0 "Some ''x''" "Some [(''k'', PInt 1)]" "''t2''"]
  from t1 a have r1: "update_memory ltm_two 5 (Some ''x'') None ''t2'' = (False, ltm_two)" by blast
  from t2 b have r2: "memory_view (snd (update_memory ltm_two 0 (Some []) None ''t2'')) 0 =
     Some \<lparr>mem_text = ''a'', mem_metadata = [], mem_created_at = ''t0'', mem_id = 0,
           mem_updated_at = Some ''t2'', mem_deleted_at = None\<rparr>" by simp
  from t2 c have r3: "memory_view (snd (update_memory ltm_two 0 (Some ''x'') (Some [(''k'', PInt 1)]) ''t2'')) 1
     = memory_view ltm_two 1" by simp
  from a b d r1 r2 r3 show ?thesis by simp
qed

section \<open>Properties of the working memory\<close>

lemma next_fault_lists: "next_fault r = (f, r') \<Longrightarrow> lists r' = lists r \<and> ttl r' = ttl r"
  by (auto simp: next_fault_def split: list.splits)

lemma lrange_all_Some:
  assumes "lrange_all r key = (Some xs, r')"
  shows "xs = lists r key" and "lists r' = lists r"
proof -
  obtain f r1 where nf: "next_fault r = (f, r1)" by (cases "next_fault r")
  with assms have "\<not> f" and "xs = lists r1 key" and "r' = r1"
    by (auto simp: lrange_all_def split: if_splits)
  with next_fault_lists [OF nf] show "xs = lists r key" and "lists r' = lists r" by simp_all
qed

lemma delete_Some:
  assumes "delete r key = (Some u, r')"
  shows "lists r' = (lists r)(key := [])"
proof -
  obtain f r1 where nf: "next_fault r = (f, r1)" by (cases "next_fault r")
  with assms have "r' = r1\<lparr>lists := (lists r1)(key := []), ttl := (ttl r1)(key := None)\<rparr>"
    by (auto simp: delete_def split: if_splits)
  with next_fault_lists [OF nf] show ?thesis by simp
qed

lemma rpush_Some:
  assumes "rpush r key item = (Some u, r')"
  shows "lists r' = (lists r)(key := lists r key @ [item])"
proof -
  obtain f r1 where nf: "next_fault r = (f, r1)" by (cases "next_fault r")
  with assms have "r' = r1\<lparr>lists := (lists r1)(key := lists r1 key @ [item])\<rparr>"
    by (auto simp: rpush_def split: if_splits)
  with next_fault_lists [OF nf] show ?thesis by simp
qed

lemma expire_Some:
  assumes "expire r key n = (Some u, r')"
  shows "lists r' = lists r"
proof -
  obtain f r1 where nf: "next_fault r = (f, r1)" by (cases "next_fault r")
  with assms have "lists r' = lists r1"
    by (auto simp: expire_def split: if_splits)
  with next_fault_lists [OF nf] show ?thesis by simp
qed

lemma rpush_each_Some:
  "rpush_each r key items = (Some u, r') \<Longrightarrow> lists r' = (lists r)(key := lists r key @ items)"
proof (induction items arbitrary: r)
  case Nil
  then show ?case by simp
next
  case (Cons item items)
  obtain o1 r1 where p: "rpush r key item = (o1, r1)" by (cases "rpush r key item")
  with Cons.prems obtain u1 where o1: "o1 = Some u1" and rest: "rpush_each r1 key items = (Some u, r')"
    by (cases o1) simp_all
  from p o1 have l1: "lists r1 = (lists r)(key := lists r key @ [item])"
    by (simp add: rpush_Some)
  from Cons.IH [OF rest] have "lists r' = (lists r1)(key := lists r1 key @ items)" .
  with l1 show ?case by simp
qed

lemma last_n_short: "length xs \<le> n \<Longrightarrow> last_n n xs = xs"
  by (simp add: last_n_def)

lemma length_last_n: "length (last_n n xs) \<le> n"
  by (simp add: last_n_def)

lemma last_n_append: "last_n n (last_n n xs @ ys) = last_n n (xs @ ys)"
proof (cases "length xs \<le> n")
  case True
  then show ?thesis by (simp add: last_n_short)
next
  case False
  then have k: "n < length xs" by simp
  let ?k = "length xs - n"
  have len: "length (drop ?k xs) = n" using k by simp
  have "last_n n (drop ?k xs @ ys) = drop (length ys) (drop ?k xs @ ys)"
    using len by (simp add: last_n_def)
  also have "\<dots> = drop (length ys) (drop ?k (xs @ ys))" using k by simp
  also have "\<dots> = drop (length ys + ?k) (xs @ ys)" by (simp only: drop_drop)
  also have "length ys + ?k = length (xs @ ys) - n" using k by simp
  finally show ?thesis by (simp add: last_n_def)
qed

lemma window_slice:
  assumes "0 < n"
  shows "(if int n < int (length xs) then py_slice_from xs (- int n) else xs) = last_n n xs"
proof (cases "n < length xs")
  case True
  have "nat (int (length xs) - int n) = length xs - n" by simp
  with True assms show ?thesis by (simp add: py_slice_from_def last_n_def)
next
  case False
  then show ?thesis by (simp add: last_n_short)
qed

lemma context_key_inject: "context_key a = context_key b \<longleftrightarrow> a = b"
  by (simp add: context_key_def)

lemma add_context_True:
  assumes "add_context self sid role content md now = (True, self')"
  shows "lists (client self') =
           (lists (client self))(context_key sid :=
              (let appended = lists (client self) (context_key sid) @
                     [\<lparr>t_role = role, t_content = content, t_timestamp = now,
                       t_metadata = (case md of None \<Rightarrow> [] | Some d \<Rightarrow> d)\<rparr>]
               in if window_size self < int (length appended)
                  then py_slice_from appended (- window_size self) else appended))"
    and "window_size self' = window_size self"
proof -
  let ?key = "context_key sid"
  let ?t = "\<lparr>t_role = role, t_content = content, t_timestamp = now,
             t_metadata = (case md of None \<Rightarrow> [] | Some d \<Rightarrow> d)\<rparr>"
  obtain o1 c1 where l: "lrange_all (client self) ?key = (o1, c1)"
    by (cases "lrange_all (client self) ?key")
  from assms l obtain existing where o1: "o1 = Some existing"
    by (cases o1) (simp_all add: add_context_def)
  let ?app = "existing @ [?t]"
  let ?w = "if window_size self < int (length ?app)
            then py_slice_from ?app (- window_size self) else ?app"
  obtain o2 c2 where d: "delete c1 ?key = (o2, c2)" by (cases "delete c1 ?key")
  from assms l o1 d obtain u2 where o2: "o2 = Some u2"
    by (cases o2) (simp_all add: add_context_def Let_def)
  obtain o3 c3 where p: "rpush_each c2 ?key ?w = (o3, c3)" by (cases "rpush_each c2 ?key ?w")
  from assms l o1 d o2 p obtain u3 where o3: "o3 = Some u3"
    by (cases o3) (simp_all add: add_context_def Let_def)
  obtain o4 c4 where e: "expire c3 ?key 86400 = (o4, c4)" by (cases "expire c3 ?key 86400")
  from assms l o1 d o2 p o3 e obtain u4 where o4: "o4 = Some u4"
    by (cases o4) (simp_all add: add_context_def Let_def)
  from assms l o1 d o2 p o3 e o4 have s': "self' = self\<lparr>client := c4\<rparr>"
    by (simp add: add_context_def Let_def)
  from l o1 have ex: "existing = lists (client self) ?key" and l1: "lists c1 = lists (client self)"
    by (simp_all add: lrange_all_Some)
  from d o2 have l2: "lists c2 = (lists c1)(?key := [])" by (simp add: delete_Some)
  from p o3 have l3: "lists c3 = (lists c2)(?key := lists c2 ?key @ ?w)"
    by (simp add: rpush_each_Some)
  from e o4 have l4: "lists c4 = lists c3" by (simp add: expire_Some)
  show "lists (client self') =
           (lists (client self))(context_key sid :=
              (let appended = lists (client self) (context_key sid) @ [?t]
               in if window_size self < int (length appended)
                  then py_slice_from appended (- window_size self) else appended))"
    by (simp add: s' l4 l3 l2 l1 ex Let_def)
  show "window_size self' = window_size self" by (simp add: s')
qed

lemma add_contexts_window:
  "window_size self = int n \<Longrightarrow> 0 < n \<Longrightarrow> add_contexts self calls = (True, self') \<Longrightarrow>
     window_size self' = int n \<and>
     lists (client self') (context_key sid) =
       (if turns_of sid calls = [] then lists (client self) (context_key sid)
        else last_n n (lists (client self) (context_key sid) @ turns_of sid calls))"
proof (induction calls arbitrary: self)
  case Nil
  then show ?case by simp
next
  case (Cons c calls)
  obtain session_id role content metadata now where c: "c = (session_id, role, content, metadata, now)"
    by (cases c)
  obtain ok self1 where a: "add_context self session_id role content metadata now = (ok, self1)"
    by (cases "add_context self session_id role content metadata now")
  obtain oks self2 where r: "add_contexts self1 calls = (oks, self2)"
    by (cases "add_contexts self1 calls")
  from Cons.prems(3) c a r have ok: "ok" and oks: "oks" and s2: "self2 = self'" by simp_all
  let ?t = "\<lparr>t_role = role, t_content = content, t_timestamp = now,
             t_metadata = (case metadata of None \<Rightarrow> [] | Some d \<Rightarrow> d)\<rparr>"
  let ?old = "lists (client self) (context_key session_id)"
  from a ok have a': "add_context self session_id role content metadata now = (True, self1)" by simp
  have w1: "window_size self1 = int n" using add_context_True(2) [OF a'] Cons.prems(1) by simp
  have ws: "(if int n < int (length (?old @ [?t])) then py_slice_from (?old @ [?t]) (- int n)
             else ?old @ [?t]) = last_n n (?old @ [?t])"
    by (rule window_slice [OF Cons.prems(2)])
  have "lists (client self1) = (lists (client self))(context_key session_id :=
          (if int n < int (length (?old @ [?t])) then py_slice_from (?old @ [?t]) (- int n)
           else ?old @ [?t]))"
    using add_context_True(1) [OF a'] by (simp only: Let_def Cons.prems(1))
  then have l1: "lists (client self1) =
      (lists (client self))(context_key session_id := last_n n (?old @ [?t]))"
    by (simp only: ws)
  from r oks s2 have r': "add_contexts self1 calls = (True, self')" by simp
  from Cons.IH [OF w1 Cons.prems(2) r']
  have w': "window_size self' = int n"
    and ih: "lists (client self') (context_key sid) =
       (if turns_of sid calls = [] then lists (client self1) (context_key sid)
        else last_n n (lists (client self1) (context_key sid) @ turns_of sid calls))"
    by simp_all
  show ?case
  proof (cases "session_id = sid")
    case True
    have tn: "turns_of sid (c # calls) = ?t # turns_of sid calls" using True c by simp
    have st: "lists (client self1) (context_key sid) = last_n n (lists (client self) (context_key sid) @ [?t])"
      using l1 True by simp
    have "lists (client self') (context_key sid) =
            last_n n (lists (client self) (context_key sid) @ ?t # turns_of sid calls)"
    proof (cases "turns_of sid calls = []")
      case True
      with ih st show ?thesis by simp
    next
      case False
      with ih st have "lists (client self') (context_key sid) =
          last_n n (last_n n (lists (client self) (context_key sid) @ [?t]) @ turns_of sid calls)"
        by simp
      also have "\<dots> = last_n n ((lists (client self) (context_key sid) @ [?t]) @ turns_of sid calls)"
        by (rule last_n_append)
      finally show ?thesis by simp
    qed
    with w' show ?thesis by (simp only: tn) simp
  next
    case False
    then have "lists (client self1) (context_key sid) = lists (client self) (context_key sid)"
      using l1 by (simp add: context_key_inject)
    moreover have "turns_of sid (c # calls) = turns_of sid calls" using False c by simp
    ultimately show ?thesis using ih w' by simp
  qed
qed

lemma get_context_result:
  "fst (get_context self sid) = [] \<or> fst (get_context self sid) = lists (client self) (context_key sid)"
proof -
  obtain r xs where l: "lrange_all (client self) (context_key sid) = (r, xs)"
    by (cases "lrange_all (client self) (context_key sid)")
  show ?thesis
  proof (cases r)
    case None
    with l show ?thesis by (simp add: get_context_def)
  next
    case (Some ys)
    with l have "ys = lists (client self) (context_key sid)" by (simp add: lrange_all_Some)
    with l Some show ?thesis by (simp add: get_context_def)
  qed
qed

lemma get_context_no_fault:
  "faults (client self) = [] \<Longrightarrow> fst (get_context self sid) = lists (client self) (context_key sid)"
  by (simp add: get_context_def lrange_all_def next_fault_def)

lemma add_context_faults_Nil:
  "faults (client self) = [] \<Longrightarrow>
     fst (add_context self sid role content md now) = True \<and>
     faults (client (snd (add_context self sid role content md now))) = []"
proof -
  assume f: "faults (client self) = []"
  have nf: "\<And>r. faults r = [] \<Longrightarrow> next_fault r = (False, r)" by (simp add: next_fault_def)
  have pe: "\<And>r key items. faults r = [] \<Longrightarrow>
              fst (rpush_each r key items) = Some () \<and> faults (snd (rpush_each r key items)) = []"
  proof -
    fix r :: redis and key items
    show "faults r = [] \<Longrightarrow>
              fst (rpush_each r key items) = Some () \<and> faults (snd (rpush_each r key items)) = []"
      by (induction items arbitrary: r) (simp_all add: rpush_def nf)
  qed
  let ?key = "context_key sid"
  let ?t = "\<lparr>t_role = role, t_content = content, t_timestamp = now,
             t_metadata = (case md of None \<Rightarrow> [] | Some d \<Rightarrow> d)\<rparr>"
  let ?app = "lists (client self) ?key @ [?t]"
  let ?w = "if window_size self < int (length ?app)
            then py_slice_from ?app (- window_size self) else ?app"
  let ?c2 = "(client self)\<lparr>lists := (lists (client self))(?key := []),
                             ttl := (ttl (client self))(?key := None)\<rparr>"
  have l: "lrange_all (client self) ?key = (Some (lists (client self) ?key), client self)"
    using f by (simp add: lrange_all_def nf)
  have d: "delete (client self) ?key = (Some (), ?c2)" using f by (simp add: delete_def nf)
  have f2: "faults ?c2 = []" using f by simp
  obtain c3 where p: "rpush_each ?c2 ?key ?w = (Some (), c3)" and f3: "faults c3 = []"
    using pe [OF f2, of ?key ?w] by (cases "rpush_each ?c2 ?key ?w") simp
  obtain c4 where e: "expire c3 ?key 86400 = (Some (), c4)" and f4: "faults c4 = []"
    using f3 by (cases "lists c3 ?key = []") (simp_all add: expire_def nf)
  have "add_context self sid role content md now = (True, self\<lparr>client := c4\<rparr>)"
    using l d p e by (simp add: add_context_def Let_def)
  with f4 show ?thesis by simp
qed

lemma add_contexts_no_fault:
  "faults (client self) = [] \<Longrightarrow>
     fst (add_contexts self calls) = True \<and> faults (client (snd (add_contexts self calls))) = []"
proof (induction calls arbitrary: self)
  case Nil
  then show ?case by simp
next
  case (Cons c calls)
  obtain session_id role content metadata now where c: "c = (session_id, role, content, metadata, now)"
    by (cases c)
  obtain ok self1 where a: "add_context self session_id role content metadata now = (ok, self1)"
    by (cases "add_context self session_id role content metadata now")
  from add_context_faults_Nil [OF Cons.prems, of session_id role content metadata now] a
  have ok: "ok" and f1: "faults (client self1) = []" by simp_all
  obtain oks self2 where r: "add_contexts self1 calls = (oks, self2)"
    by (cases "add_contexts self1 calls")
  from Cons.IH [OF f1] r have "oks" and "faults (client self2) = []" by simp_all
  with ok a r c show ?case by simp
qed

text \<open>
  The window bound for a window size of at least one.  Let the session hold at most
  \<open>n\<close> turns, and let a sequence of \<open>add_context\<close> calls, for this and other
  sessions, all return \<open>True\<close>.  Then \<open>get_context\<close> returns at most \<open>n\<close>
  turns, and, unless the read itself meets a fault, exactly the last \<open>n\<close> of the
  turns held before followed by the turns added for the session, oldest first.
\<close>

lemma get_context_window:
  assumes "window_size self = int n" and "0 < n"
    and "length (lists (client self) (context_key sid)) \<le> n"
    and "add_contexts self calls = (True, self')"
  shows "length (fst (get_context self' sid)) \<le> n \<and>
         (faults (client self') = [] \<longrightarrow>
            fst (get_context self' sid)
              = last_n n (lists (client self) (context_key sid) @ turns_of sid calls))"
proof -
  let ?old = "lists (client self) (context_key sid)"
  from add_contexts_window [OF assms(1,2,4), of sid]
  have st: "lists (client self') (context_key sid) =
       (if turns_of sid calls = [] then ?old else last_n n (?old @ turns_of sid calls))" by simp
  have eq: "lists (client self') (context_key sid) = last_n n (?old @ turns_of sid calls)"
  proof (cases "turns_of sid calls = []")
    case True
    with st assms(3) show ?thesis by (simp add: last_n_short)
  next
    case False
    with st show ?thesis by simp
  qed
  have "length (lists (client self') (context_key sid)) \<le> n"
    unfolding eq by (rule length_last_n)
  with get_context_result [of self' sid] have "length (fst (get_context self' sid)) \<le> n"
    by auto
  moreover have "faults (client self') = [] \<longrightarrow>
      fst (get_context self' sid) = last_n n (?old @ turns_of sid calls)"
    using eq by (simp add: get_context_no_fault)
  ultimately show ?thesis by simp
qed

text \<open>
  Claim C4 at window size 0.  The slice \<open>existing_list[-0:]\<close> is the whole list, so
  nothing is ever evicted: after two successful calls \<open>get_context\<close> returns both
  turns, which is more than the window size.
\<close>

theorem window_size_zero_keeps_all_turns:
  "add_contexts \<lparr>client = fresh_redis, window_size = 0\<rparr>
      [(''s'', ''user'', ''a'', None, ''t1''), (''s'', ''agent'', ''b'', None, ''t2'')]
     = (True, \<lparr>client = fresh_redis\<lparr>lists := (\<lambda>_. [])(context_key ''s'' :=
                   [\<lparr>t_role = ''user'', t_content = ''a'', t_timestamp = ''t1'', t_metadata = []\<rparr>,
                    \<lparr>t_role = ''agent'', t_content = ''b'', t_timestamp = ''t2'', t_metadata = []\<rparr>]),
                 ttl := (\<lambda>_. None)(context_key ''s'' := Some 86400)\<rparr>, window_size = 0\<rparr>) \<and>
   fst (get_context (snd (add_contexts \<lparr>client = fresh_redis, window_size = 0\<rparr>
      [(''s'', ''user'', ''a'', None, ''t1''), (''s'', ''agent'', ''b'', None, ''t2'')])) ''s'')
     = [\<lparr>t_role = ''user'', t_content = ''a'', t_timestamp = ''t1'', t_metadata = []\<rparr>,
        \<lparr>t_role = ''agent'', t_content = ''b'', t_timestamp = ''t2'', t_metadata = []\<rparr>]"
  by (simp add: add_context_def get_context_def fresh_redis_def lrange_all_def delete_def
      rpush_def expire_def next_fault_def py_slice_from_def Let_def)

text \<open>
  With window size 2, three turns for session \<open>s\<close> and one for another session,
  the two most recent turns of \<open>s\<close> are returned.
\<close>

lemma get_context_window_example:
  "fst (get_context (snd (add_contexts \<lparr>client = fresh_redis, window_size = 2\<rparr>
      [(''s'', ''user'', ''a'', None, ''t1''), (''r'', ''user'', ''x'', None, ''t2''),
       (''s'', ''agent'', ''b'', None, ''t3''), (''s'', ''user'', ''c'', None, ''t4'')])) ''s'')
     = [\<lparr>t_role = ''agent'', t_content = ''b'', t_timestamp = ''t3'', t_metadata = []\<rparr>,
        \<lparr>t_role = ''user'', t_content = ''c'', t_timestamp = ''t4'', t_metadata = []\<rparr>]"
proof -
  let ?wm = "\<lparr>client = fresh_redis, window_size = 2\<rparr>"
  let ?calls = "[(''s'', ''user'', ''a'', None, ''t1''), (''r'', ''user'', ''x'', None, ''t2''),
       (''s'', ''agent'', ''b'', None, ''t3''), (''s'', ''user'', ''c'', None, ''t4'')]"
  have f: "faults (client ?wm) = []" by (simp add: fresh_redis_def)
  from add_contexts_no_fault [OF f, of ?calls]
  have ok: "add_contexts ?wm ?calls = (True, snd (add_contexts ?wm ?calls))"
    and f': "faults (client (snd (add_contexts ?wm ?calls))) = []"
    by (simp_all add: prod_eq_iff)
  have "window_size ?wm = int 2" and "0 < (2::nat)"
    and "length (lists (client ?wm) (context_key ''s'')) \<le> 2"
    by (simp_all add: fresh_redis_def)
  from get_context_window [OF this ok] f'
  have "fst (get_context (snd (add_contexts ?wm ?calls)) ''s'')
      = last_n 2 (lists (client ?wm) (context_key ''s'') @ turns_of ''s'' ?calls)" by simp
  then show ?thesis by (simp add: last_n_def fresh_redis_def)
qed

section \<open>Properties of the memory manager\<close>

subsection \<open>Dict updates and the result of add\_interaction\<close>

lemma dict_update_nonempty: "d \<noteq> [] \<Longrightarrow> dict_update d other \<noteq> []"
proof (induction other arbitrary: d)
  case Nil
  then show ?case by (simp add: dict_update_def)
next
  case (Cons kv other)
  have "AList.update (fst kv) (snd kv) d \<noteq> []" by simp
  from Cons.IH [OF this] show ?case by (simp add: dict_update_def)
qed

lemma map_of_dict_update: "map_of (dict_update d other) = map_of d ++ map_of (rev other)"
proof (induction other arbitrary: d)
  case Nil
  then show ?case by (simp add: dict_update_def)
next
  case (Cons kv other)
  obtain k v where kv: "kv = (k, v)" by (cases kv)
  have "dict_update d (kv # other) = dict_update (AList.update k v d) other"
    by (simp add: dict_update_def kv)
  then have "map_of (dict_update d (kv # other))
      = map_of (AList.update k v d) ++ map_of (rev other)"
    by (simp only: Cons.IH)
  also have "map_of (AList.update k v d) = map_of d ++ [k \<mapsto> v]"
    by (simp add: update_conv')
  also have "(map_of d ++ [k \<mapsto> v]) ++ map_of (rev other)
      = map_of d ++ ([k \<mapsto> v] ++ map_of (rev other))"
    by (rule map_add_assoc [symmetric])
  also have "[k \<mapsto> v] ++ map_of (rev other) = map_of (rev (kv # other))"
    by (simp add: kv)
  finally show ?case .
qed

lemma keys_dict_update: "fst ` set (dict_update d other) = fst ` set d \<union> fst ` set other"
proof (induction other arbitrary: d)
  case Nil
  then show ?case by (simp add: dict_update_def)
next
  case (Cons kv other)
  have "dict_update d (kv # other) = dict_update (AList.update (fst kv) (snd kv) d) other"
    by (simp add: dict_update_def)
  then have "fst ` set (dict_update d (kv # other))
      = fst ` set (AList.update (fst kv) (snd kv) d) \<union> fst ` set other"
    by (simp only: Cons.IH)
  also have "\<dots> = ({fst kv} \<union> fst ` set d) \<union> fst ` set other"
    by (simp only: dom_update)
  also have "\<dots> = fst ` set d \<union> fst ` set (kv # other)" by auto
  finally show ?case .
qed

lemma interaction_meta_nonempty: "interaction_meta sid role p md \<noteq> []"
  unfolding interaction_meta_def by (rule dict_update_nonempty) simp

lemma add_memory_fails_iff:
  "(\<exists>e. add_memory E s t md now = Inl e) \<longleftrightarrow> long_term_write_fails E s t"
proof (cases "E t")
  case None
  then show ?thesis by (simp add: add_memory_def long_term_write_fails_def)
next
  case (Some v)
  show ?thesis
  proof (cases "index_add (index s) v")
    case None
    with Some show ?thesis by (simp add: add_memory_def long_term_write_fails_def)
  next
    case (Some ix)
    with \<open>E t = Some v\<close> show ?thesis
      by (simp add: add_memory_def long_term_write_fails_def Let_def split: prod.split)
  qed
qed

lemma long_term_write_fails_heap [simp]:
  "long_term_write_fails E (s\<lparr>heap := h\<rparr>) t = long_term_write_fails E s t"
  by (simp add: long_term_write_fails_def split: option.split)

lemma add_interaction_result:
  "fst (add_interaction E self sid role content p md n1 n2) =
     (\<not> ((p = HIGH \<or> p = CRITICAL) \<and> long_term_write_fails E (mm_long_term_memory self) content))"
proof -
  obtain stored wm where a: "add_context (mm_working_memory self) sid role content md n1 = (stored, wm)"
    by (cases "add_context (mm_working_memory self) sid role content md n1")
  let ?ltm = "mm_long_term_memory self"
  obtain meta h where n: "new_dict (interaction_meta sid role p md) (heap ?ltm) = (meta, h)"
    by (cases "new_dict (interaction_meta sid role p md) (heap ?ltm)")
  show ?thesis
  proof (cases "p = HIGH \<or> p = CRITICAL")
    case False
    with a show ?thesis by (simp add: add_interaction_def)
  next
    case True
    show ?thesis
    proof (cases "add_memory E (?ltm\<lparr>heap := h\<rparr>) content (Some meta) n2")
      case (Inl e)
      then have "long_term_write_fails E (?ltm\<lparr>heap := h\<rparr>) content"
        using add_memory_fails_iff by blast
      with True a n Inl show ?thesis by (simp add: add_interaction_def)
    next
      case (Inr r)
      then have "\<not> long_term_write_fails E (?ltm\<lparr>heap := h\<rparr>) content"
        using add_memory_fails_iff [of E "?ltm\<lparr>heap := h\<rparr>" content "Some meta" n2] by simp
      with True a n Inr show ?thesis by (cases r) (simp add: add_interaction_def)
    qed
  qed
qed

lemma add_interaction_working_memory:
  "mm_working_memory (snd (add_interaction E self sid role content p md n1 n2))
     = snd (add_context (mm_working_memory self) sid role content md n1)"
proof -
  obtain stored wm where a: "add_context (mm_working_memory self) sid role content md n1 = (stored, wm)"
    by (cases "add_context (mm_working_memory self) sid role content md n1")
  let ?ltm = "mm_long_term_memory self"
  obtain meta h where n: "new_dict (interaction_meta sid role p md) (heap ?ltm) = (meta, h)"
    by (cases "new_dict (interaction_meta sid role p md) (heap ?ltm)")
  show ?thesis
  proof (cases "p = HIGH \<or> p = CRITICAL")
    case False
    with a show ?thesis by (simp add: add_interaction_def)
  next
    case True
    show ?thesis
    proof (cases "add_memory E (?ltm\<lparr>heap := h\<rparr>) content (Some meta) n2")
      case (Inl e)
      with True a n show ?thesis by (simp add: add_interaction_def)
    next
      case (Inr r)
      with True a n show ?thesis by (cases r) (simp add: add_interaction_def)
    qed
  qed
qed

text \<open>
  Claim C1, as the code has it.  \<open>add_interaction\<close> returns one boolean.  When the
  priority is HIGH or CRITICAL and the long-term write fails, the call reports
  failure.  When the working-memory append succeeds and no required long-term write
  fails, the call reports success.  The working memory is in either case what
  \<open>add_context\<close> left.
\<close>

theorem add_interaction_reports_long_term_failure:
  "((priority = HIGH \<or> priority = CRITICAL) \<and>
      long_term_write_fails E (mm_long_term_memory self) content \<longrightarrow>
      fst (add_interaction E self sid role content priority md n1 n2) = False) \<and>
   (fst (add_context (mm_working_memory self) sid role content md n1) = True \<and>
      \<not> ((priority = HIGH \<or> priority = CRITICAL) \<and>
         long_term_write_fails E (mm_long_term_memory self) content) \<longrightarrow>
      fst (add_interaction E self sid role content priority md n1 n2) = True) \<and>
   mm_working_memory (snd (add_interaction E self sid role content priority md n1 n2))
     = snd (add_context (mm_working_memory self) sid role content md n1)"
  by (simp add: add_interaction_result add_interaction_working_memory)

lemma add_context_redis_down:
  "fst (add_context (mm_working_memory mm_redis_down) ''s'' ''user'' ''x'' None ''t1'') = False"
  by (simp add: mm_redis_down_def mm_fresh_def add_context_def lrange_all_def next_fault_def
      fresh_redis_def)

lemma add_context_redis_up:
  "fst (add_context (mm_working_memory mm_fresh) ''s'' ''user'' ''x'' None ''t1'') = True"
  by (simp add: mm_fresh_def add_context_def lrange_all_def delete_def rpush_def expire_def
      next_fault_def fresh_redis_def Let_def)

lemma mm_long_term_memory_examples:
  "mm_long_term_memory mm_fresh = LongTermMemory 2 empty_heap"
  "mm_long_term_memory mm_redis_down = LongTermMemory 2 empty_heap"
  by (simp_all add: mm_fresh_def mm_redis_down_def)

lemma write_fails_examples:
  "long_term_write_fails failing_embedder (LongTermMemory 2 empty_heap) ''x''"
  "\<not> long_term_write_fails zero_embedder (LongTermMemory 2 empty_heap) ''x''"
  by (simp_all add: long_term_write_fails_def failing_embedder_def zero_embedder_def
      LongTermMemory_def IndexFlatL2_def index_add_def)

theorem add_interaction_reports_long_term_failure_witness:
  "long_term_write_fails failing_embedder (mm_long_term_memory mm_fresh) ''x'' \<and>
   fst (add_interaction failing_embedder mm_fresh ''s'' ''user'' ''x'' HIGH None ''t1'' ''t2'') = False \<and>
   fst (add_context (mm_working_memory mm_fresh) ''s'' ''user'' ''x'' None ''t1'') = True \<and>
   \<not> long_term_write_fails zero_embedder (mm_long_term_memory mm_fresh) ''x'' \<and>
   fst (add_interaction zero_embedder mm_fresh ''s'' ''user'' ''x'' HIGH None ''t1'' ''t2'') = True"
  using add_interaction_reports_long_term_failure
      [of HIGH failing_embedder mm_fresh "''x''" "''s''" "''user''" None "''t1''" "''t2''"]
    add_interaction_reports_long_term_failure
      [of HIGH zero_embedder mm_fresh "''x''" "''s''" "''user''" None "''t1''" "''t2''"]
    add_context_redis_up
  by (simp add: mm_long_term_memory_examples write_fails_examples)

text \<open>
  The boolean does not tell the two stores apart.  With the Redis connection down the
  append fails, yet a LOW priority interaction reports success; and a HIGH priority
  interaction whose long-term write fails reports the same \<open>False\<close> whether the
  append succeeded or failed.
\<close>

theorem add_interaction_single_boolean_counterexample:
  "fst (add_context (mm_working_memory mm_redis_down) ''s'' ''user'' ''x'' None ''t1'') = False \<and>
   fst (add_interaction zero_embedder mm_redis_down ''s'' ''user'' ''x'' LOW None ''t1'' ''t2'') = True \<and>
   fst (add_context (mm_working_memory mm_fresh) ''s'' ''user'' ''x'' None ''t1'') = True \<and>
   fst (add_interaction failing_embedder mm_fresh ''s'' ''user'' ''x'' HIGH None ''t1'' ''t2'') = False \<and>
   fst (add_interaction failing_embedder mm_redis_down ''s'' ''user'' ''x'' HIGH None ''t1'' ''t2'') = False"
  by (simp add: add_context_redis_down add_context_redis_up add_interaction_result
      mm_long_term_memory_examples write_fails_examples)

subsection \<open>Priority routing\<close>

lemma add_interaction_low:
  assumes "priority = LOW \<or> priority = MEDIUM"
  shows "mm_long_term_memory (snd (add_interaction E self sid role content priority md n1 n2))
           = mm_long_term_memory self"
proof -
  obtain stored wm where a: "add_context (mm_working_memory self) sid role content md n1 = (stored, wm)"
    by (cases "add_context (mm_working_memory self) sid role content md n1")
  from assms have "\<not> (priority = HIGH \<or> priority = CRITICAL)" by auto
  with a show ?thesis by (simp add: add_interaction_def)
qed

lemma add_interaction_high_success:
  assumes high: "priority = HIGH \<or> priority = CRITICAL"
    and ok: "fst (add_interaction E self sid role content priority md n1 n2) = True"
  shows "mm_long_term_memory (snd (add_interaction E self sid role content priority md n1 n2)) =
     (mm_long_term_memory self)
       \<lparr>index := the (index_add (index (mm_long_term_memory self)) (the (E content))),
        id_to_memory :=
          AList.update (next_id (mm_long_term_memory self))
            \<lparr>mem_text = content, mem_metadata = brk (heap (mm_long_term_memory self)),
             mem_created_at = n2, mem_id = next_id (mm_long_term_memory self),
             mem_updated_at = None, mem_deleted_at = None\<rparr>
            (id_to_memory (mm_long_term_memory self)),
        next_id := next_id (mm_long_term_memory self) + 1,
        heap := (heap (mm_long_term_memory self))
          \<lparr>objs := (objs (heap (mm_long_term_memory self)))
             (brk (heap (mm_long_term_memory self)) := interaction_meta sid role priority md),
           brk := Suc (brk (heap (mm_long_term_memory self)))\<rparr>\<rparr>"
proof -
  let ?ltm = "mm_long_term_memory self"
  obtain stored wm where a: "add_context (mm_working_memory self) sid role content md n1 = (stored, wm)"
    by (cases "add_context (mm_working_memory self) sid role content md n1")
  from ok high have nf: "\<not> long_term_write_fails E ?ltm content"
    by (simp add: add_interaction_result)
  then obtain v where v: "E content = Some v"
    by (cases "E content") (simp_all add: long_term_write_fails_def)
  with nf obtain ix where ix: "index_add (index ?ltm) v = Some ix"
    by (cases "index_add (index ?ltm) v") (simp_all add: long_term_write_fails_def)
  note ne = interaction_meta_nonempty [of sid role priority md]
  show ?thesis
    using high a v ix ne
    by (simp add: add_interaction_def add_memory_def new_dict_def Let_def)
qed

text \<open>
  Claim C6 says that the new record's metadata has \<open>type = interaction\<close>, and that
  \<open>total_memories\<close> goes up by one.  The caller's metadata comes last in the dict
  display, so a caller's \<open>type\<close> replaces the tag: with the metadata
  \<open>{'type': 'note'}\<close> the stored record has the type \<open>note\<close>.  With the metadata
  \<open>{'type': ['a']}\<close> the call succeeds too, and \<open>get_stats\<close>, which returned before
  the call, raises TypeError after it.
\<close>

theorem add_interaction_caller_type_counterexample:
  "fst (add_interaction zero_embedder mm_fresh ''s'' ''user'' ''x'' HIGH
          (Some [(''type'', PStr ''note'')]) ''t1'' ''t2'') = True \<and>
   memory_view (mm_long_term_memory
       (snd (add_interaction zero_embedder mm_fresh ''s'' ''user'' ''x'' HIGH
          (Some [(''type'', PStr ''note'')]) ''t1'' ''t2''))) 0
     = Some \<lparr>mem_text = ''x'',
             mem_metadata = [(''session_id'', PStr ''s''), (''role'', PStr ''user''),
                             (''priority'', PStr ''HIGH''), (''type'', PStr ''note'')],
             mem_created_at = ''t2'', mem_id = 0, mem_updated_at = None, mem_deleted_at = None\<rparr> \<and>
   get_stats (mm_long_term_memory mm_fresh)
     = Inr \<lparr>total_memories = 0, index_size = 0, st_vector_dim = 2, memories_by_type = []\<rparr> \<and>
   fst (add_interaction zero_embedder mm_fresh ''s'' ''user'' ''x'' HIGH
          (Some [(''type'', PList [PStr ''a''])]) ''t1'' ''t2'') = True \<and>
   get_stats (mm_long_term_memory
       (snd (add_interaction zero_embedder mm_fresh ''s'' ''user'' ''x'' HIGH
          (Some [(''type'', PList [PStr ''a''])]) ''t1'' ''t2''))) = Inl TypeError"
proof -
  have l: "mm_long_term_memory mm_fresh = LongTermMemory 2 empty_heap"
    by (rule mm_long_term_memory_examples(1))
  have ok1: "fst (add_interaction zero_embedder mm_fresh ''s'' ''user'' ''x'' HIGH
          (Some [(''type'', PStr ''note'')]) ''t1'' ''t2'') = True"
    and ok2: "fst (add_interaction zero_embedder mm_fresh ''s'' ''user'' ''x'' HIGH
          (Some [(''type'', PList [PStr ''a''])]) ''t1'' ''t2'') = True"
    by (simp_all add: add_interaction_result l write_fails_examples)
  have im1: "interaction_meta ''s'' ''user'' HIGH (Some [(''type'', PStr ''note'')]) =
      [(''session_id'', PStr ''s''), (''role'', PStr ''user''),
       (''priority'', PStr ''HIGH''), (''type'', PStr ''note'')]"
    and im2: "interaction_meta ''s'' ''user'' HIGH (Some [(''type'', PList [PStr ''a''])]) =
      [(''session_id'', PStr ''s''), (''role'', PStr ''user''),
       (''priority'', PStr ''HIGH''), (''type'', PList [PStr ''a''])]"
    by (simp_all add: interaction_meta_def dict_update_def)
  have v: "memory_view (mm_long_term_memory
       (snd (add_interaction zero_embedder mm_fresh ''s'' ''user'' ''x'' HIGH
          (Some [(''type'', PStr ''note'')]) ''t1'' ''t2''))) 0
     = Some \<lparr>mem_text = ''x'',
             mem_metadata = [(''session_id'', PStr ''s''), (''role'', PStr ''user''),
                             (''priority'', PStr ''HIGH''), (''type'', PStr ''note'')],
             mem_created_at = ''t2'', mem_id = 0, mem_updated_at = None, mem_deleted_at = None\<rparr>"
    by (simp add: add_interaction_high_success [OF _ ok1] l im1 LongTermMemory_def empty_heap_def
        memory_view_def get_memory_def)
  have g0: "get_stats (mm_long_term_memory mm_fresh)
     = Inr \<lparr>total_memories = 0, index_size = 0, st_vector_dim = 2, memories_by_type = []\<rparr>"
    by (simp add: l LongTermMemory_def IndexFlatL2_def get_stats_def count_by_type_def ntotal_def)
  have g1: "get_stats (mm_long_term_memory
       (snd (add_interaction zero_embedder mm_fresh ''s'' ''user'' ''x'' HIGH
          (Some [(''type'', PList [PStr ''a''])]) ''t1'' ''t2''))) = Inl TypeError"
    by (simp add: add_interaction_high_success [OF _ ok2] l im2 LongTermMemory_def empty_heap_def
        get_stats_def count_by_type_def memory_type_def)
  from ok1 v g0 ok2 g1 show ?thesis by simp
qed

text \<open>
  Claim C6, as the code has it.  With priority LOW or MEDIUM \<open>add_interaction\<close>
  leaves the long-term memory as it was, so \<open>get_stats\<close> gives what it gave before.
  With priority HIGH or CRITICAL a successful call, in an instance whose keys are below
  the counter, adds exactly one record: the table is one longer, and
  \<open>total_memories\<close> is one more whenever \<open>get_stats\<close> returns before and after the
  call.  The new record holds the content, and its metadata is the dict with
  \<open>session_id\<close>, \<open>role\<close>, \<open>priority\<close> and \<open>type = interaction\<close> updated with
  the caller's metadata: it has these four keys, a tag keeps its value when the caller's
  metadata has no such key, and on a key that both have the caller's value stands.
\<close>

theorem add_interaction_priority_routing:
  "(priority = LOW \<or> priority = MEDIUM \<longrightarrow>
      mm_long_term_memory (snd (add_interaction E self sid role content priority md n1 n2))
        = mm_long_term_memory self \<and>
      get_stats (mm_long_term_memory (snd (add_interaction E self sid role content priority md n1 n2)))
        = get_stats (mm_long_term_memory self)) \<and>
   ((priority = HIGH \<or> priority = CRITICAL) \<and>
      fst (add_interaction E self sid role content priority md n1 n2) = True \<and>
      keys_below_next (mm_long_term_memory self) \<longrightarrow>
      length (id_to_memory (mm_long_term_memory
          (snd (add_interaction E self sid role content priority md n1 n2))))
        = length (id_to_memory (mm_long_term_memory self)) + 1 \<and>
      (\<forall>st st'. get_stats (mm_long_term_memory self) = Inr st \<and>
         get_stats (mm_long_term_memory
           (snd (add_interaction E self sid role content priority md n1 n2))) = Inr st' \<longrightarrow>
         total_memories st' = total_memories st + 1) \<and>
      memory_view (mm_long_term_memory (snd (add_interaction E self sid role content priority md n1 n2)))
          (next_id (mm_long_term_memory self))
        = Some \<lparr>mem_text = content, mem_metadata = interaction_meta sid role priority md,
                mem_created_at = n2, mem_id = next_id (mm_long_term_memory self),
                mem_updated_at = None, mem_deleted_at = None\<rparr> \<and>
      map_of (interaction_meta sid role priority md)
        = map_of [(''session_id'', PStr sid), (''role'', PStr role),
                  (''priority'', PStr (priority_name priority)), (''type'', PStr ''interaction'')]
          ++ map_of (rev (case md of None \<Rightarrow> [] | Some d \<Rightarrow> d)) \<and>
      (\<forall>k. k \<notin> fst ` set (case md of None \<Rightarrow> [] | Some d \<Rightarrow> d) \<longrightarrow>
         map_of (interaction_meta sid role priority md) k
           = map_of [(''session_id'', PStr sid), (''role'', PStr role),
                     (''priority'', PStr (priority_name priority)),
                     (''type'', PStr ''interaction'')] k) \<and>
      {''session_id'', ''role'', ''priority'', ''type''}
        \<subseteq> fst ` set (interaction_meta sid role priority md))"
proof (intro conjI impI allI)
  assume "priority = LOW \<or> priority = MEDIUM"
  then show low: "mm_long_term_memory (snd (add_interaction E self sid role content priority md n1 n2))
        = mm_long_term_memory self"
    by (rule add_interaction_low)
  then show "get_stats (mm_long_term_memory (snd (add_interaction E self sid role content priority md n1 n2)))
        = get_stats (mm_long_term_memory self)"
    by simp
next
  let ?ltm = "mm_long_term_memory self"
  let ?R = "add_interaction E self sid role content priority md n1 n2"
  let ?tags = "[(''session_id'', PStr sid), (''role'', PStr role),
                (''priority'', PStr (priority_name priority)), (''type'', PStr ''interaction'')]"
  assume h: "(priority = HIGH \<or> priority = CRITICAL) \<and> fst ?R = True \<and> keys_below_next ?ltm"
  then have high: "priority = HIGH \<or> priority = CRITICAL" and ok: "fst ?R = True"
    and kb: "keys_below_next ?ltm" by simp_all
  note eq = add_interaction_high_success [OF high ok]
  from kb have "\<forall>k\<in>set (map fst (id_to_memory ?ltm)). k < next_id ?ltm"
    by (simp add: keys_below_next_def list_all_iff)
  then have fresh: "next_id ?ltm \<notin> set (map fst (id_to_memory ?ltm))" by auto
  show len: "length (id_to_memory (mm_long_term_memory (snd ?R)))
        = length (id_to_memory ?ltm) + 1"
    by (simp add: eq length_update_new [OF fresh])
  show "memory_view (mm_long_term_memory (snd ?R)) (next_id ?ltm)
        = Some \<lparr>mem_text = content, mem_metadata = interaction_meta sid role priority md,
                mem_created_at = n2, mem_id = next_id ?ltm,
                mem_updated_at = None, mem_deleted_at = None\<rparr>"
    by (simp add: eq memory_view_def get_memory_def update_conv')
  show m: "map_of (interaction_meta sid role priority md)
        = map_of ?tags ++ map_of (rev (case md of None \<Rightarrow> [] | Some d \<Rightarrow> d))"
    unfolding interaction_meta_def by (rule map_of_dict_update)
  show "{''session_id'', ''role'', ''priority'', ''type''}
        \<subseteq> fst ` set (interaction_meta sid role priority md)"
    by (simp add: interaction_meta_def keys_dict_update)
  {
    fix st st'
    assume g: "get_stats ?ltm = Inr st \<and> get_stats (mm_long_term_memory (snd ?R)) = Inr st'"
    then have "total_memories st = length (id_to_memory ?ltm)"
      and "total_memories st' = length (id_to_memory (mm_long_term_memory (snd ?R)))"
      by (simp_all add: get_stats_Inr)
    with len show "total_memories st' = total_memories st + 1" by simp
  }
  {
    fix k
    assume "k \<notin> fst ` set (case md of None \<Rightarrow> [] | Some d \<Rightarrow> d)"
    then have "map_of (rev (case md of None \<Rightarrow> [] | Some d \<Rightarrow> d)) k = None"
      by (simp add: map_of_eq_None_iff)
    then show "map_of (interaction_meta sid role priority md) k = map_of ?tags k"
      by (simp only: m map_add_def option.case)
  }
qed

theorem add_interaction_priority_routing_witness:
  "get_stats (mm_long_term_memory
       (snd (add_interaction zero_embedder mm_fresh ''s'' ''user'' ''x'' LOW None ''t1'' ''t2'')))
     = Inr \<lparr>total_memories = 0, index_size = 0, st_vector_dim = 2, memories_by_type = []\<rparr> \<and>
   fst (add_interaction zero_embedder mm_fresh ''s'' ''user'' ''x'' HIGH
          (Some [(''topic'', PStr ''tea'')]) ''t1'' ''t2'') = True \<and>
   keys_below_next (mm_long_term_memory mm_fresh) \<and>
   get_stats (mm_long_term_memory mm_fresh)
     = Inr \<lparr>total_memories = 0, index_size = 0, st_vector_dim = 2, memories_by_type = []\<rparr> \<and>
   get_stats (mm_long_term_memory
       (snd (add_interaction zero_embedder mm_fresh ''s'' ''user'' ''x'' HIGH
          (Some [(''topic'', PStr ''tea'')]) ''t1'' ''t2'')))
     = Inr \<lparr>total_memories = 1, index_size = 1, st_vector_dim = 2,
            memories_by_type = [(PStr ''interaction'', 1)]\<rparr> \<and>
   length (id_to_memory (mm_long_term_memory
       (snd (add_interaction zero_embedder mm_fresh ''s'' ''user'' ''x'' HIGH
          (Some [(''topic'', PStr ''tea'')]) ''t1'' ''t2'')))) = 1 \<and>
   memory_view (mm_long_term_memory
       (snd (add_interaction zero_embedder mm_fresh ''s'' ''user'' ''x'' HIGH
          (Some [(''topic'', PStr ''tea'')]) ''t1'' ''t2''))) 0
     = Some \<lparr>mem_text = ''x'',
             mem_metadata = [(''session_id'', PStr ''s''), (''role'', PStr ''user''),
                             (''priority'', PStr ''HIGH''), (''type'', PStr ''interaction''),
                             (''topic'', PStr ''tea'')],
             mem_created_at = ''t2'', mem_id = 0, mem_updated_at = None, mem_deleted_at = None\<rparr> \<and>
   map_of (interaction_meta ''s'' ''user'' HIGH (Some [(''topic'', PStr ''tea'')])) ''type''
     = Some (PStr ''interaction'')"
proof -
  let ?md = "Some [(''topic'', PStr ''tea'')]"
  let ?R = "add_interaction zero_embedder mm_fresh ''s'' ''user'' ''x'' HIGH ?md ''t1'' ''t2''"
  have l: "mm_long_term_memory mm_fresh = LongTermMemory 2 empty_heap"
    by (rule mm_long_term_memory_examples(1))
  have ok: "fst ?R = True"
    by (simp add: add_interaction_result l write_fails_examples)
  have kb: "keys_below_next (mm_long_term_memory mm_fresh)"
    by (simp add: l keys_below_next_def LongTermMemory_def)
  have g0: "get_stats (mm_long_term_memory mm_fresh)
     = Inr \<lparr>total_memories = 0, index_size = 0, st_vector_dim = 2, memories_by_type = []\<rparr>"
    by (simp add: l LongTermMemory_def IndexFlatL2_def get_stats_def count_by_type_def ntotal_def)
  have nx: "next_id (mm_long_term_memory mm_fresh) = 0"
    and ln: "length (id_to_memory (mm_long_term_memory mm_fresh)) = 0"
    by (simp_all add: l LongTermMemory_def)
  have im: "interaction_meta ''s'' ''user'' HIGH ?md =
      [(''session_id'', PStr ''s''), (''role'', PStr ''user''),
       (''priority'', PStr ''HIGH''), (''type'', PStr ''interaction''), (''topic'', PStr ''tea'')]"
    by (simp add: interaction_meta_def dict_update_def)
  have g1: "get_stats (mm_long_term_memory (snd ?R))
     = Inr \<lparr>total_memories = 1, index_size = 1, st_vector_dim = 2,
            memories_by_type = [(PStr ''interaction'', 1)]\<rparr>"
    apply (subst add_interaction_high_success [OF _ ok])
     apply simp
    apply (simp add: l im LongTermMemory_def empty_heap_def IndexFlatL2_def index_add_def
        zero_embedder_def ntotal_def get_stats_def count_by_type_def memory_type_def)
    done
  note t1 = add_interaction_priority_routing
      [of LOW zero_embedder mm_fresh "''s''" "''user''" "''x''" None "''t1''" "''t2''"]
  note t2 = add_interaction_priority_routing
      [of HIGH zero_embedder mm_fresh "''s''" "''user''" "''x''" ?md "''t1''" "''t2''"]
  from t1 g0 have r1: "get_stats (mm_long_term_memory
       (snd (add_interaction zero_embedder mm_fresh ''s'' ''user'' ''x'' LOW None ''t1'' ''t2'')))
     = Inr \<lparr>total_memories = 0, index_size = 0, st_vector_dim = 2, memories_by_type = []\<rparr>"
    by simp
  from t2 ok kb have r2: "length (id_to_memory (mm_long_term_memory (snd ?R)))
        = length (id_to_memory (mm_long_term_memory mm_fresh)) + 1"
    and r3: "memory_view (mm_long_term_memory (snd ?R)) (next_id (mm_long_term_memory mm_fresh))
        = Some \<lparr>mem_text = ''x'', mem_metadata = interaction_meta ''s'' ''user'' HIGH ?md,
                mem_created_at = ''t2'', mem_id = next_id (mm_long_term_memory mm_fresh),
                mem_updated_at = None, mem_deleted_at = None\<rparr>"
    and r4: "\<forall>k. k \<notin> fst ` set (case ?md of None \<Rightarrow> [] | Some d \<Rightarrow> d) \<longrightarrow>
         map_of (interaction_meta ''s'' ''user'' HIGH ?md) k
           = map_of [(''session_id'', PStr ''s''), (''role'', PStr ''user''),
                     (''priority'', PStr (priority_name HIGH)),
                     (''type'', PStr ''interaction'')] k"
    by simp_all
  from r4 have r5: "map_of (interaction_meta ''s'' ''user'' HIGH ?md) ''type''
     = Some (PStr ''interaction'')"
    by simp
  from r1 r2 r3 r5 ok kb g0 g1 show ?thesis by (simp add: nx ln im)
qed

section \<open>The key invariant across loads\<close>

lemma distinct_dict_update:
  "distinct (map fst d) \<Longrightarrow> distinct (map fst (dict_update d other))"
proof (induction other arbitrary: d)
  case Nil
  then show ?case by (simp add: dict_update_def)
next
  case (Cons kv other)
  have "distinct (map fst (AList.update (fst kv) (snd kv) d))"
    using Cons.prems by (rule distinct_update)
  from Cons.IH [OF this] show ?case by (simp add: dict_update_def)
qed

lemma load_records_keys: "map fst (fst (load_records items h)) = map fst items"
proof (induction items arbitrary: h)
  case Nil
  then show ?case by simp
next
  case (Cons km items)
  obtain k m where km: "km = (k, m)" by (cases km)
  obtain a h1 where n: "new_dict (mem_metadata m) h = (a, h1)"
    by (cases "new_dict (mem_metadata m) h")
  obtain ms h2 where r: "load_records items h1 = (ms, h2)" by (cases "load_records items h1")
  from Cons.IH [of h1] r have "map fst ms = map fst items" by simp
  with km n r show ?case by simp
qed

lemma py_max_ge: "x \<in> set (k # ks) \<Longrightarrow> x \<le> py_max k ks"
proof -
  assume "x \<in> set (k # ks)"
  then have "x \<le> Max (set (k # ks))" by (intro Max_ge) simp_all
  then show ?thesis by (simp only: py_max_eq_Max)
qed

text \<open>
  Loading keeps the keys distinct and below the counter, whether it succeeds or fails;
  with the lemmas on \<open>add_memory\<close>, \<open>update_memory\<close> and \<open>delete_memory\<close>
  above, every instance reached from a fresh one satisfies \<open>keys_below_next\<close>.
\<close>

lemma load_index_keys_below_next:
  assumes "keys_below_next self"
  shows "keys_below_next (snd (load_index self index_file map_file))"
proof (cases index_file)
  case FileNotFound
  with assms show ?thesis by (simp add: load_index_def)
next
  case ReadFault
  with assms show ?thesis by (simp add: load_index_def)
next
  case (Content ix)
  from assms have k1: "keys_below_next (self\<lparr>index := ix\<rparr>)" by (simp add: keys_below_next_def)
  show ?thesis
  proof (cases map_file)
    case FileNotFound
    with Content k1 show ?thesis by (simp add: load_index_def)
  next
    case ReadFault
    with Content k1 show ?thesis by (simp add: load_index_def)
  next
    case C: (Content memory_dict)
    show ?thesis
    proof (cases "list_ex (\<lambda>kv. py_int (fst kv) = None) memory_dict")
      case True
      with Content C k1 show ?thesis by (simp add: load_index_def)
    next
      case False
      let ?items = "dict_update [] (map (\<lambda>kv. (the (py_int (fst kv)), snd kv)) memory_dict)"
      obtain table h where lr: "load_records ?items (heap self) = (table, h)"
        by (cases "load_records ?items (heap self)")
      have keys: "map fst table = map fst ?items" using load_records_keys [of ?items "heap self"] lr by simp
      have d: "distinct (map fst table)" unfolding keys by (rule distinct_dict_update) simp
      show ?thesis
      proof (cases "map fst table")
        case Nil
        with Content C False lr show ?thesis
          by (simp add: load_index_def Let_def keys_below_next_def)
      next
        case (Cons k ks)
        have "\<forall>x\<in>set (map fst table). x < py_max k ks + 1"
        proof
          fix x assume "x \<in> set (map fst table)"
          then have "x \<in> set (k # ks)" by (simp only: Cons)
          then have "x \<le> py_max k ks" by (rule py_max_ge)
          then show "x < py_max k ks + 1" by simp
        qed
        with d Content C False lr Cons show ?thesis
          by (simp add: load_index_def Let_def keys_below_next_def list_all_iff)
      qed
    qed
  qed
qed

section \<open>Properties of search\_similar\<close>

subsection \<open>Rounding to nearest\<close>

lemma rne_of_int [simp]: "rne (of_int n) = n"
  by (simp add: rne_def)

lemma rne_floor: "\<lfloor>x\<rfloor> \<le> rne x" "rne x \<le> \<lfloor>x\<rfloor> + 1"
  by (simp_all add: rne_def Let_def)

lemma rne_ge: assumes "of_int n \<le> x" shows "n \<le> rne x"
proof -
  from assms have "n \<le> \<lfloor>x\<rfloor>" by (simp add: le_floor_iff)
  with rne_floor(1) [of x] show ?thesis by simp
qed

lemma rne_le: assumes "x \<le> of_int n" shows "rne x \<le> n"
proof (cases "x = of_int n")
  case True then show ?thesis by simp
next
  case False
  with assms have "x < of_int n" by simp
  then have "\<lfloor>x\<rfloor> < n" by (simp add: floor_less_iff)
  with rne_floor(2) [of x] show ?thesis by simp
qed

lemma rne_mono: assumes "x \<le> y" shows "rne x \<le> rne y"
proof (cases "\<lfloor>x\<rfloor> = \<lfloor>y\<rfloor>")
  case True
  with assms show ?thesis by (auto simp: rne_def Let_def)
next
  case False
  from assms have "\<lfloor>x\<rfloor> \<le> \<lfloor>y\<rfloor>" by (rule floor_mono)
  with False have "\<lfloor>x\<rfloor> + 1 \<le> \<lfloor>y\<rfloor>" by simp
  with rne_floor(2) [of x] rne_floor(1) [of y] show ?thesis by simp
qed

lemma rne_err: "\<bar>of_int (rne x) - x\<bar> \<le> 1 / 2"
proof -
  have "of_int \<lfloor>x\<rfloor> \<le> x" "x < of_int \<lfloor>x\<rfloor> + 1" by linarith+
  then show ?thesis by (auto simp: rne_def Let_def)
qed

lemma ulp_exponent_upper:
  assumes "0 < x" shows "x < 2 powr (of_int (ulp_exponent x) + 53)"
proof -
  have "log 2 x < of_int \<lfloor>log 2 x\<rfloor> + 1" by linarith
  also have "\<dots> \<le> of_int (ulp_exponent x) + 53" using assms by (simp add: ulp_exponent_def)
  finally have "log 2 x < of_int (ulp_exponent x) + 53" .
  with assms show ?thesis by (simp add: log_less_iff)
qed

lemma ulp_exponent_lower:
  assumes "0 < x" and "2 powr (- 1022) \<le> x"
  shows "2 powr (of_int (ulp_exponent x) + 52) \<le> x"
proof -
  from assms have "- 1022 \<le> log 2 x" by (simp add: le_log_iff)
  then have "(- 1022 :: int) \<le> \<lfloor>log 2 x\<rfloor>" by (simp add: le_floor_iff)
  then have "of_int (ulp_exponent x) + 52 = real_of_int \<lfloor>log 2 x\<rfloor>"
    using assms by (simp add: ulp_exponent_def)
  also have "\<dots> \<le> log 2 x" by simp
  finally show ?thesis using assms by (simp add: le_log_iff)
qed

lemma ulp_exponent_mono:
  assumes "0 < x" "x \<le> y" shows "ulp_exponent x \<le> ulp_exponent y"
proof -
  from assms have "log 2 x \<le> log 2 y" by simp
  then have "\<lfloor>log 2 x\<rfloor> \<le> \<lfloor>log 2 y\<rfloor>" by (rule floor_mono)
  with assms show ?thesis by (simp add: ulp_exponent_def)
qed

lemma ulp_exponent_eq:
  assumes "- 1022 \<le> k" "2 powr of_int k \<le> x" "x < 2 powr (of_int k + 1)"
  shows "ulp_exponent x = k - 52"
proof -
  have "(0::real) < 2 powr of_int k" by simp
  with assms(2) have x: "0 < x" by linarith
  have "\<lfloor>log 2 x\<rfloor> = k"
    using x assms(2,3) by (simp add: floor_log_eq_powr_iff)
  with x assms(1) show ?thesis by (simp add: ulp_exponent_def)
qed

lemma two_powr_53: "(2::real) powr 53 = of_int (2 ^ 53)" "(2::real) powr 52 = of_int (2 ^ 52)"
  by simp_all

lemma round_real_pos:
  assumes "0 < x"
  shows "round_real x = 2 powr of_int (ulp_exponent x) * of_int (rne (x / 2 powr of_int (ulp_exponent x)))"
  using assms by (simp add: round_real_def)

lemma round_real_upper:
  assumes "0 < x" shows "round_real x \<le> 2 powr (of_int (ulp_exponent x) + 53)"
proof -
  let ?u = "2 powr of_int (ulp_exponent x) :: real"
  have u: "0 < ?u" by simp
  have "x < ?u * 2 powr 53" using ulp_exponent_upper [OF assms] by (simp add: powr_add)
  then have "x / ?u < 2 powr 53" using u by (simp add: pos_divide_less_eq mult.commute)
  then have "x / ?u \<le> of_int (2 ^ 53)" by simp
  then have "rne (x / ?u) \<le> 2 ^ 53" by (rule rne_le)
  then have "real_of_int (rne (x / ?u)) \<le> 2 powr 53" by (simp only: two_powr_53 of_int_le_iff)
  then have "?u * real_of_int (rne (x / ?u)) \<le> ?u * 2 powr 53"
    using u by (simp only: mult_le_cancel_left_pos)
  then show ?thesis by (simp only: round_real_pos [OF assms] powr_add)
qed

lemma round_real_lower:
  assumes "0 < x" and "2 powr (- 1022) \<le> x"
  shows "2 powr (of_int (ulp_exponent x) + 52) \<le> round_real x"
proof -
  let ?u = "2 powr of_int (ulp_exponent x) :: real"
  have u: "0 < ?u" by simp
  have "?u * 2 powr 52 \<le> x" using ulp_exponent_lower [OF assms] by (simp add: powr_add)
  then have "2 powr 52 \<le> x / ?u" using u by (simp add: pos_le_divide_eq mult.commute)
  then have "of_int (2 ^ 52) \<le> x / ?u" by simp
  then have "2 ^ 52 \<le> rne (x / ?u)" by (rule rne_ge)
  then have "2 powr 52 \<le> real_of_int (rne (x / ?u))" by (simp only: two_powr_53 of_int_le_iff)
  then have "?u * 2 powr 52 \<le> ?u * real_of_int (rne (x / ?u))"
    using u by (simp only: mult_le_cancel_left_pos)
  then show ?thesis by (simp only: round_real_pos [OF assms(1)] powr_add)
qed

lemma round_real_nonneg:
  assumes "0 < x" shows "0 \<le> round_real x"
proof -
  let ?u = "2 powr of_int (ulp_exponent x) :: real"
  have "of_int 0 \<le> x / ?u" using assms by simp
  then have "0 \<le> rne (x / ?u)" by (rule rne_ge)
  then show ?thesis by (simp add: round_real_pos [OF assms])
qed

lemma round_real_mono:
  assumes "0 < x" "x \<le> y" shows "round_real x \<le> round_real y"
proof -
  from assms have y: "0 < y" by simp
  have e: "ulp_exponent x \<le> ulp_exponent y" using assms by (rule ulp_exponent_mono)
  show ?thesis
  proof (cases "ulp_exponent x = ulp_exponent y")
    case True
    let ?u = "2 powr of_int (ulp_exponent y) :: real"
    have "x / ?u \<le> y / ?u" using assms by (simp add: divide_right_mono)
    then have "rne (x / ?u) \<le> rne (y / ?u)" by (rule rne_mono)
    then have "?u * real_of_int (rne (x / ?u)) \<le> ?u * real_of_int (rne (y / ?u))"
      by (simp add: mult_left_mono)
    then show ?thesis by (simp only: round_real_pos [OF assms(1)] round_real_pos [OF y] True)
  next
    case False
    with e have lt: "ulp_exponent x + 1 \<le> ulp_exponent y" by simp
    have "- 1022 - 52 \<le> ulp_exponent x" by (simp add: ulp_exponent_def)
    with lt have "- 1022 - 52 < ulp_exponent y" by linarith
    then have "- 1022 < max \<lfloor>log 2 \<bar>y\<bar>\<rfloor> (- 1022)" by (simp add: ulp_exponent_def)
    then have "(- 1022 :: int) \<le> \<lfloor>log 2 y\<rfloor>" using y by (simp add: max_def split: if_splits)
    then have "- 1022 \<le> log 2 y" by (simp add: le_floor_iff)
    then have n: "2 powr (- 1022) \<le> y" using y by (simp add: le_log_iff)
    have "round_real x \<le> 2 powr (of_int (ulp_exponent x) + 53)"
      using assms(1) by (rule round_real_upper)
    also have "\<dots> \<le> 2 powr (of_int (ulp_exponent y) + 52)"
      using lt by simp
    also have "\<dots> \<le> round_real y" using y n by (rule round_real_lower)
    finally show ?thesis .
  qed
qed

lemma round_real_powr:
  assumes "- 1022 \<le> k" shows "round_real (2 powr of_int k) = 2 powr of_int k"
proof -
  have e: "ulp_exponent (2 powr of_int k) = k - 52"
    using assms by (intro ulp_exponent_eq) simp_all
  have "2 powr real_of_int k / 2 powr (real_of_int k - 52) = (2::real) powr 52"
    by (simp add: powr_diff)
  then have "rne (2 powr real_of_int k / 2 powr real_of_int (k - 52)) = 2 ^ 52"
    by (simp only: two_powr_53 of_int_diff of_int_numeral rne_of_int)
  then show ?thesis
    by (simp add: round_real_def e powr_diff)
qed

lemma round_real_le_powr:
  assumes "0 < x" "x \<le> 2 powr of_int k" "- 1022 \<le> k"
  shows "round_real x \<le> 2 powr of_int k"
  using round_real_mono [OF assms(1,2)] round_real_powr [OF assms(3)] by simp

lemma round_real_ge_powr:
  assumes "2 powr of_int k \<le> x" "- 1022 \<le> k"
  shows "2 powr of_int k \<le> round_real x"
proof -
  have "(0::real) < 2 powr of_int k" by simp
  from round_real_mono [OF this assms(1)] round_real_powr [OF assms(2)] show ?thesis by simp
qed

lemma round_real_1 [simp]: "round_real 1 = 1"
  using round_real_powr [of 0] by simp

subsection \<open>The similarity of a finite distance\<close>

lemma round_float_normal:
  assumes "2 powr of_int k \<le> x" "x \<le> 2 powr of_int l" "- 1022 \<le> k" "l < 1024"
  shows "round_float x = Finite (round_real x)"
    and "2 powr of_int k \<le> round_real x" and "round_real x \<le> 2 powr of_int l"
proof -
  have "(0::real) < 2 powr of_int k" by simp
  with assms(1) have x: "0 < x" by linarith
  show lo: "2 powr of_int k \<le> round_real x" using assms(1,3) by (rule round_real_ge_powr)
  from assms(1,2) have "(2::real) powr of_int k \<le> 2 powr of_int l" by linarith
  then have "k \<le> l" by simp
  with assms(3) have l: "- 1022 \<le> l" by simp
  show hi: "round_real x \<le> 2 powr of_int l" using x assms(2) l by (rule round_real_le_powr)
  have "real_of_int l < 1024" using assms(4) by simp
  then have "(2::real) powr of_int l < 2 powr 1024"
    by (rule powr_less_mono) simp
  also have "\<dots> = 2 ^ 1024" by simp
  finally have "round_real x < 2 ^ 1024" using hi by linarith
  moreover have "0 \<le> round_real x" using x by (rule round_real_nonneg)
  ultimately show "round_float x = Finite (round_real x)"
    by (simp add: round_float_def Let_def)
qed

lemma similarity_finite:
  assumes "0 \<le> d" "d \<le> 2 powr 128"
  shows "similarity (Finite d) = Inr (Finite (round_real (1 / round_real (1 + d))))"
    and "1 \<le> round_real (1 + d)" and "round_real (1 + d) \<le> 2 powr 129"
    and "2 powr (- 129) \<le> round_real (1 / round_real (1 + d))"
    and "round_real (1 / round_real (1 + d)) \<le> 1"
proof -
  have a1: "2 powr of_int 0 \<le> 1 + d" using assms(1) by simp
  have "1 + d \<le> 2 powr 128 + 2 powr 128" using assms(2) by (simp add: add_mono)
  also have "\<dots> = 2 powr 129" by simp
  finally have a2: "1 + d \<le> 2 powr of_int 129" by simp
  note r1 = round_float_normal [OF a1 a2]
  from r1(2) show s1: "1 \<le> round_real (1 + d)" by simp
  from r1(3) show s2: "round_real (1 + d) \<le> 2 powr 129" by simp
  let ?s = "round_real (1 + d)"
  have pos: "0 < ?s" using s1 by linarith
  have "1 / ?s \<le> 1" using s1 by simp
  then have b2: "1 / ?s \<le> 2 powr of_int 0" by simp
  have "1 / 2 powr 129 \<le> 1 / ?s" using s2 pos by (simp add: frac_le)
  moreover have "1 / 2 powr 129 = (2::real) powr (- 129)" by (simp add: powr_minus_divide)
  ultimately have b1: "2 powr of_int (- 129) \<le> 1 / ?s" by simp
  note r2 = round_float_normal [OF b1 b2]
  from r2(2) show "2 powr (- 129) \<le> round_real (1 / ?s)" by simp
  from r2(3) show "round_real (1 / ?s) \<le> 1" by simp
  from pos have "?s \<noteq> 0" by simp
  then show "similarity (Finite d) = Inr (Finite (round_real (1 / ?s)))"
    by (simp add: similarity_def r1(1) r2(1))
qed

lemma similarity_mono:
  assumes "0 \<le> d" "d \<le> d'" "d' \<le> 2 powr 128"
  shows "round_real (1 / round_real (1 + d')) \<le> round_real (1 / round_real (1 + d))"
proof -
  from assms have d: "d \<le> 2 powr 128" and d': "0 \<le> d'" by simp_all
  have p: "1 \<le> round_real (1 + d)" using assms(1) d by (rule similarity_finite(2))
  have p': "1 \<le> round_real (1 + d')" using d' assms(3) by (rule similarity_finite(2))
  have "round_real (1 + d) \<le> round_real (1 + d')"
    using assms(1,2) by (intro round_real_mono) simp_all
  then have "1 / round_real (1 + d') \<le> 1 / round_real (1 + d)"
    using p by (intro frac_le) simp_all
  moreover have "0 < 1 / round_real (1 + d')" using p' by simp
  ultimately show ?thesis by (rule round_real_mono [rotated])
qed

lemma rne_near:
  assumes "0 \<le> t" "t < 1 / 2" shows "rne (of_int n + t) = n"
proof -
  have "\<lfloor>of_int n + t\<rfloor> = n" using assms by linarith
  with assms show ?thesis by (simp add: rne_def)
qed

lemma round_real_one_plus_tiny:
  assumes "0 \<le> d" "d < 2 powr (- 53)" shows "round_real (1 + d) = 1"
proof -
  have "(2::real) powr (- 53) < 1" by (simp add: powr_minus_divide)
  with assms have d1: "d < 1" by linarith
  have e: "ulp_exponent (1 + d) = 0 - 52"
    using assms(1) d1 by (intro ulp_exponent_eq) simp_all
  have "d * 2 powr 52 < 2 powr (- 53) * 2 powr 52" using assms(2) by simp
  also have "\<dots> = 1 / 2" by (simp add: powr_minus_divide)
  finally have t: "d * 2 powr 52 < 1 / 2" .
  have t0: "0 \<le> d * 2 powr 52" using assms(1) by simp
  have "(1 + d) / 2 powr of_int (0 - 52) = of_int (2 ^ 52) + d * 2 powr 52"
    by (simp add: powr_minus_divide algebra_simps)
  then have "rne ((1 + d) / 2 powr of_int (0 - 52)) = 2 ^ 52"
    using rne_near [OF t0 t, of "2 ^ 52"] by simp
  moreover have "1 + d \<noteq> 0" using assms(1) by linarith
  ultimately show ?thesis by (simp add: round_real_def e powr_minus_divide)
qed

lemma similarity_tiny:
  assumes "0 \<le> d" "d < 2 powr (- 53)" shows "similarity (Finite d) = Inr (Finite 1)"
proof -
  have "d \<le> 2 powr 128"
  proof -
    have "(2::real) powr (- 53) \<le> 2 powr 128" by (rule powr_mono) simp_all
    with assms(2) show ?thesis by linarith
  qed
  from similarity_finite(1) [OF assms(1) this] show ?thesis
    by (simp add: round_real_one_plus_tiny [OF assms])
qed

lemma similarity_examples:
  "similarity (Finite (2 powr (- 60))) = Inr (Finite 1)"
  "similarity (Finite (2 powr (- 59))) = Inr (Finite 1)"
  "similarity PosInf = Inr (Finite 0)"
  "similarity (Finite 0) = Inr (Finite 1)"
    apply (rule similarity_tiny; simp)
   apply (rule similarity_tiny; simp)
   apply (simp add: similarity_def)
  apply (rule similarity_tiny; simp)
  done

lemma round_real_error:
  assumes "0 < x" and "2 powr (- 1022) \<le> x"
  shows "\<bar>round_real x - x\<bar> \<le> 2 powr (- 53) * x"
proof -
  let ?u = "2 powr of_int (ulp_exponent x) :: real"
  have u: "0 < ?u" by simp
  have "round_real x - x = ?u * (of_int (rne (x / ?u)) - x / ?u)"
    using u by (simp add: round_real_pos [OF assms(1)] algebra_simps)
  then have "\<bar>round_real x - x\<bar> = ?u * \<bar>of_int (rne (x / ?u)) - x / ?u\<bar>"
    using u by (simp add: abs_mult)
  also have "\<dots> \<le> ?u * (1 / 2)"
    using u rne_err [of "x / ?u"] by (simp only: mult_le_cancel_left_pos)
  also have "\<dots> = 2 powr (- 53) * (?u * 2 powr 52)"
    by (simp add: powr_minus_divide)
  also have "\<dots> \<le> 2 powr (- 53) * x"
    using ulp_exponent_lower [OF assms] by (simp add: powr_add)
  finally show ?thesis .
qed

lemma similarity_error:
  assumes "0 \<le> d" "d \<le> 2 powr 128"
  shows "\<bar>round_real (1 / round_real (1 + d)) * (1 + d) - 1\<bar> \<le> 2 powr (- 51)"
proof -
  let ?a = "1 + d"
  let ?s1 = "round_real ?a"
  let ?s = "round_real (1 / ?s1)"
  let ?e = "2 powr (- 53) :: real"
  have e: "?e = 1 / 2 ^ 53" by (simp add: powr_minus_divide)
  have a: "1 \<le> ?a" using assms(1) by simp
  have s1: "1 \<le> ?s1" and s1u: "?s1 \<le> 2 powr 129" using assms by (rule similarity_finite(2,3))+
  have n1: "2 powr (- 1022) \<le> ?a"
  proof -
    have "(2::real) powr (- 1022) \<le> 2 powr 0" by (rule powr_mono) simp_all
    with a show ?thesis by simp
  qed
  have e1: "\<bar>?s1 - ?a\<bar> \<le> ?e * ?a" using a n1 by (intro round_real_error) simp_all
  have q: "0 < 1 / ?s1" using s1 by simp
  have n2: "2 powr (- 1022) \<le> 1 / ?s1"
  proof -
    have "(2::real) powr (- 1022) \<le> 2 powr (- 129)" by (rule powr_mono) simp_all
    also have "\<dots> = 1 / 2 powr 129" by (simp add: powr_minus_divide)
    also have "\<dots> \<le> 1 / ?s1" using s1 s1u by (intro frac_le) simp_all
    finally show ?thesis .
  qed
  have e2: "\<bar>?s - 1 / ?s1\<bar> \<le> ?e * (1 / ?s1)" using q n2 by (rule round_real_error)
  have lo: "(1 - ?e) * ?a \<le> ?s1" using e1 by (simp add: abs_le_iff algebra_simps)
  have "?s * ?a - 1 = (?s - 1 / ?s1) * ?a + (?a - ?s1) / ?s1"
    using s1 by (simp add: field_simps)
  then have "\<bar>?s * ?a - 1\<bar> \<le> \<bar>?s - 1 / ?s1\<bar> * ?a + \<bar>?a - ?s1\<bar> / ?s1"
    using a s1 by (simp add: abs_mult abs_triangle_ineq [THEN order_trans])
  also have "\<dots> \<le> ?e * (1 / ?s1) * ?a + ?e * ?a / ?s1"
  proof (rule add_mono)
    show "\<bar>?s - 1 / ?s1\<bar> * ?a \<le> ?e * (1 / ?s1) * ?a"
      using e2 a by (intro mult_right_mono) simp_all
    have "\<bar>?a - ?s1\<bar> \<le> ?e * ?a" using e1 by (simp add: abs_minus_commute)
    then show "\<bar>?a - ?s1\<bar> / ?s1 \<le> ?e * ?a / ?s1"
      using s1 by (intro divide_right_mono) simp_all
  qed
  also have "\<dots> = 2 * ?e * (?a / ?s1)" by simp
  also have "\<dots> \<le> 2 * ?e * 2"
  proof -
    have "?a \<le> 2 * ((1 - ?e) * ?a)" using a by (simp add: e)
    also have "\<dots> \<le> 2 * ?s1" using lo by simp
    finally have "?a / ?s1 \<le> 2" using s1 by (simp add: pos_divide_le_eq)
    then show ?thesis by (intro mult_left_mono) simp_all
  qed
  also have "\<dots> = 2 powr (- 51)" by (simp add: powr_minus_divide)
  finally show ?thesis .
qed

subsection \<open>The results of a search\<close>

lemma collect_results_sound:
  "collect_results self pairs = Inr results \<Longrightarrow>
     \<forall>r\<in>set results. similarity (res_distance r) = Inr (res_similarity r) \<and> 0 \<le> res_id r \<and>
        map_of (id_to_memory self) (res_id r) = Some (res_memory r) \<and>
        (res_id r, res_distance r) \<in> set pairs"
proof (induction self pairs arbitrary: results rule: collect_results.induct)
  case (1 self)
  then show ?case by simp
next
  case (2 self idx distance rest)
  show ?case
  proof (cases "if 0 \<le> idx then map_of (id_to_memory self) idx else None")
    case None
    with "2.prems" have "collect_results self rest = Inr results" by simp
    from "2.IH"(1) [OF None this] show ?thesis by auto
  next
    case (Some mem)
    from "2.prems" Some obtain sim where sim: "similarity distance = Inr sim"
      by (cases "similarity distance") simp_all
    from "2.prems" Some sim obtain rs where rs: "collect_results self rest = Inr rs"
      by (cases "collect_results self rest") simp_all
    from "2.prems" Some sim rs have res: "results =
        \<lparr>res_id = idx, res_similarity = sim, res_distance = distance, res_memory = mem\<rparr> # rs"
      by simp
    from Some have i: "0 \<le> idx" and m: "map_of (id_to_memory self) idx = Some mem"
      by (simp_all split: if_splits)
    from "2.IH"(2) [OF Some sim rs] i m sim show ?thesis by (auto simp: res)
  qed
qed

lemma search_similar_sound:
  assumes "r \<in> set (search_similar E search self query_text top_k)"
  shows "similarity (res_distance r) = Inr (res_similarity r)"
    and "0 \<le> res_id r" and "map_of (id_to_memory self) (res_id r) = Some (res_memory r)"
proof -
  from assms have n: "ntotal (index self) \<noteq> 0"
    by (cases "ntotal (index self) = 0") (simp_all add: search_similar_def)
  with assms obtain q where q: "E query_text = Some q"
    by (cases "E query_text") (simp_all add: search_similar_def)
  with assms n obtain pairs where
    p: "search (index self) q (min top_k (int (ntotal (index self)))) = Some pairs"
    by (cases "search (index self) q (min top_k (int (ntotal (index self))))")
      (simp_all add: search_similar_def)
  with assms n q obtain results where c: "collect_results self pairs = Inr results"
    by (cases "collect_results self pairs") (simp_all add: search_similar_def)
  with assms n q p have r: "r \<in> set results" by (simp add: search_similar_def)
  from collect_results_sound [OF c] r
  show "similarity (res_distance r) = Inr (res_similarity r)"
    and "0 \<le> res_id r" and "map_of (id_to_memory self) (res_id r) = Some (res_memory r)"
    by simp_all
qed

lemma round_real_2 [simp]: "round_real 2 = 2"
  using round_real_powr [of 1] by simp

lemma round_real_half [simp]: "round_real (1 / 2) = 1 / 2"
  using round_real_powr [of "- 1"] by (simp add: powr_minus_divide)

lemma similarity_1: "similarity (Finite 1) = Inr (Finite (1 / 2))"
proof -
  have "(1::real) \<le> 2 powr 128" using powr_mono [of 0 128 "2::real"] by simp
  from similarity_finite(1) [OF _ this] show ?thesis by simp
qed

subsection \<open>Similarity and distance\<close>

text \<open>
  Claim C7 says that the similarity is \<open>1 / (1 + d)\<close>, so that a smaller distance
  gives a strictly greater similarity, and that it lies in \<open>(0, 1]\<close> for every
  non-negative distance.  The code computes in binary64, where \<open>1.0 + d\<close> is
  \<open>1.0\<close> for every \<open>d\<close> below \<open>2^-53\<close>: a search that reports the two stored
  records at the distances \<open>2^-60\<close> and \<open>2^-59\<close> returns them both with the
  similarity \<open>1.0\<close>, which is not the real quotient either.  And for the distance
  \<open>inf\<close>, which a float32 sum of squares reaches by overflow, the similarity is
  \<open>0.0\<close>.
\<close>

theorem search_similar_equal_similarity_counterexample:
  "search_similar zero_embedder search_near ltm_two ''q'' 3 =
     [\<lparr>res_id = 0, res_similarity = Finite 1, res_distance = Finite (2 powr (- 60)),
       res_memory = \<lparr>mem_text = ''a'', mem_metadata = 0, mem_created_at = ''t0'', mem_id = 0,
                      mem_updated_at = None, mem_deleted_at = None\<rparr>\<rparr>,
      \<lparr>res_id = 1, res_similarity = Finite 1, res_distance = Finite (2 powr (- 59)),
       res_memory = \<lparr>mem_text = ''b'', mem_metadata = 1, mem_created_at = ''t1'', mem_id = 1,
                      mem_updated_at = None, mem_deleted_at = None\<rparr>\<rparr>] \<and>
   (0::real) < 2 powr (- 60) \<and> (2::real) powr (- 60) < 2 powr (- 59) \<and>
   1 / (1 + 2 powr (- 60)) < (1::real) \<and>
   similarity PosInf = Inr (Finite 0)"
proof -
  have "search_similar zero_embedder search_near ltm_two ''q'' 3 =
     [\<lparr>res_id = 0, res_similarity = Finite 1, res_distance = Finite (2 powr (- 60)),
       res_memory = \<lparr>mem_text = ''a'', mem_metadata = 0, mem_created_at = ''t0'', mem_id = 0,
                      mem_updated_at = None, mem_deleted_at = None\<rparr>\<rparr>,
      \<lparr>res_id = 1, res_similarity = Finite 1, res_distance = Finite (2 powr (- 59)),
       res_memory = \<lparr>mem_text = ''b'', mem_metadata = 1, mem_created_at = ''t1'', mem_id = 1,
                      mem_updated_at = None, mem_deleted_at = None\<rparr>\<rparr>]"
    by (simp add: search_similar_def ltm_two_eq ntotal_def zero_embedder_def search_near_def
        similarity_examples)
  moreover have "(2::real) powr (- 60) < 2 powr (- 59)" by (rule powr_less_mono) simp_all
  moreover have "1 / (1 + 2 powr (- 60)) < (1::real)"
  proof -
    have l: "0 < x \<Longrightarrow> 1 / (1 + x) < 1" for x :: real by (simp add: field_simps)
    have "(0::real) < 2 powr (- 60)" by simp
    then show ?thesis by (rule l)
  qed
  ultimately show ?thesis by (simp add: similarity_examples)
qed

text \<open>
  Claim C7, as the code has it.  Every result of \<open>search_similar\<close> carries the
  similarity that the expression \<open>1.0 / (1.0 + d)\<close> gives for its reported distance
  \<open>d\<close>.  For finite distances from \<open>0\<close> up to \<open>2^128\<close>, which covers every finite
  non-negative float32 value, that is the real \<open>1 / (1 + d)\<close> with the sum and the
  quotient each rounded to the nearest binary64 value; it differs from \<open>1 / (1 + d)\<close>
  by a relative error of at most \<open>2^-51\<close>, and it lies in \<open>(0, 1]\<close>.  For two
  results of one search with such distances, the one with the smaller or equal distance
  has the greater or equal similarity.
\<close>

theorem search_similar_similarity:
  "(\<forall>r\<in>set (search_similar E search self query_text top_k).
      similarity (res_distance r) = Inr (res_similarity r)) \<and>
   (\<forall>a\<in>set (search_similar E search self query_text top_k).
    \<forall>b\<in>set (search_similar E search self query_text top_k).
    \<forall>d d'. res_distance a = Finite d \<and> res_distance b = Finite d' \<and>
       0 \<le> d \<and> d \<le> d' \<and> d' \<le> 2 powr 128 \<longrightarrow>
       res_similarity a = Finite (round_real (1 / round_real (1 + d))) \<and>
       res_similarity b = Finite (round_real (1 / round_real (1 + d'))) \<and>
       round_real (1 / round_real (1 + d')) \<le> round_real (1 / round_real (1 + d)) \<and>
       0 < round_real (1 / round_real (1 + d')) \<and>
       round_real (1 / round_real (1 + d)) \<le> 1 \<and>
       \<bar>round_real (1 / round_real (1 + d)) * (1 + d) - 1\<bar> \<le> 2 powr (- 51))"
proof (intro conjI ballI allI impI)
  fix r
  assume "r \<in> set (search_similar E search self query_text top_k)"
  then show "similarity (res_distance r) = Inr (res_similarity r)"
    by (rule search_similar_sound(1))
next
  fix a b d d'
  assume a: "a \<in> set (search_similar E search self query_text top_k)"
    and b: "b \<in> set (search_similar E search self query_text top_k)"
    and h: "res_distance a = Finite d \<and> res_distance b = Finite d' \<and>
       0 \<le> d \<and> d \<le> d' \<and> d' \<le> 2 powr 128"
  from h have da: "res_distance a = Finite d" and db: "res_distance b = Finite d'"
    and d0: "0 \<le> d" and dd: "d \<le> d'" and d1: "d' \<le> 2 powr 128" by simp_all
  from d0 dd d1 have d2: "d \<le> 2 powr 128" and d3: "0 \<le> d'" by simp_all
  from search_similar_sound(1) [OF a] similarity_finite(1) [OF d0 d2]
  show "res_similarity a = Finite (round_real (1 / round_real (1 + d)))" by (simp add: da)
  from search_similar_sound(1) [OF b] similarity_finite(1) [OF d3 d1]
  show "res_similarity b = Finite (round_real (1 / round_real (1 + d')))" by (simp add: db)
  from d0 dd d1
  show "round_real (1 / round_real (1 + d')) \<le> round_real (1 / round_real (1 + d))"
    by (rule similarity_mono)
  have "(0::real) < 2 powr (- 129)" by simp
  with similarity_finite(4) [OF d3 d1]
  show "0 < round_real (1 / round_real (1 + d'))" by linarith
  from d0 d2 show "round_real (1 / round_real (1 + d)) \<le> 1" by (rule similarity_finite(5))
  from d0 d2 show "\<bar>round_real (1 / round_real (1 + d)) * (1 + d) - 1\<bar> \<le> 2 powr (- 51)"
    by (rule similarity_error)
qed

theorem search_similar_similarity_witness:
  "search_similar zero_embedder search_far ltm_two ''q'' 3 =
     [\<lparr>res_id = 1, res_similarity = Finite 1, res_distance = Finite 0,
       res_memory = \<lparr>mem_text = ''b'', mem_metadata = 1, mem_created_at = ''t1'', mem_id = 1,
                      mem_updated_at = None, mem_deleted_at = None\<rparr>\<rparr>,
      \<lparr>res_id = 0, res_similarity = Finite (1 / 2), res_distance = Finite 1,
       res_memory = \<lparr>mem_text = ''a'', mem_metadata = 0, mem_created_at = ''t0'', mem_id = 0,
                      mem_updated_at = None, mem_deleted_at = None\<rparr>\<rparr>] \<and>
   similarity (Finite 0) = Inr (Finite 1) \<and>
   similarity (Finite 1) = Inr (Finite (1 / 2)) \<and>
   (0::real) \<le> 1 \<and> (1::real) \<le> 2 powr 128 \<and>
   round_real (1 / round_real (1 + 1)) \<le> round_real (1 / round_real (1 + 0)) \<and>
   0 < round_real (1 / round_real (1 + 1)) \<and>
   round_real (1 / round_real (1 + 0)) \<le> 1 \<and>
   \<bar>round_real (1 / round_real (1 + 0)) * (1 + 0) - 1\<bar> \<le> 2 powr (- 51)"
proof -
  let ?a = "\<lparr>res_id = 1, res_similarity = Finite 1, res_distance = Finite 0,
       res_memory = \<lparr>mem_text = ''b'', mem_metadata = 1 :: addr, mem_created_at = ''t1'', mem_id = 1,
                      mem_updated_at = None, mem_deleted_at = None\<rparr>\<rparr>"
  let ?b = "\<lparr>res_id = 0, res_similarity = Finite (1 / 2), res_distance = Finite 1,
       res_memory = \<lparr>mem_text = ''a'', mem_metadata = 0 :: addr, mem_created_at = ''t0'', mem_id = 0,
                      mem_updated_at = None, mem_deleted_at = None\<rparr>\<rparr>"
  have R: "search_similar zero_embedder search_far ltm_two ''q'' 3 = [?a, ?b]"
    by (simp add: search_similar_def ltm_two_eq ntotal_def zero_embedder_def search_far_def
        similarity_examples similarity_1)
  have le: "(1::real) \<le> 2 powr 128" using powr_mono [of 0 128 "2::real"] by simp
  note t = search_similar_similarity [of zero_embedder search_far ltm_two "''q''" 3]
  from t have s: "\<forall>r\<in>set [?a, ?b]. similarity (res_distance r) = Inr (res_similarity r)"
    unfolding R by (rule conjunct1)
  from t have "\<forall>a\<in>set [?a, ?b]. \<forall>b\<in>set [?a, ?b].
    \<forall>d d'. res_distance a = Finite d \<and> res_distance b = Finite d' \<and>
       0 \<le> d \<and> d \<le> d' \<and> d' \<le> 2 powr 128 \<longrightarrow>
       res_similarity a = Finite (round_real (1 / round_real (1 + d))) \<and>
       res_similarity b = Finite (round_real (1 / round_real (1 + d'))) \<and>
       round_real (1 / round_real (1 + d')) \<le> round_real (1 / round_real (1 + d)) \<and>
       0 < round_real (1 / round_real (1 + d')) \<and>
       round_real (1 / round_real (1 + d)) \<le> 1 \<and>
       \<bar>round_real (1 / round_real (1 + d)) * (1 + d) - 1\<bar> \<le> 2 powr (- 51)"
    unfolding R by (rule conjunct2)
  then have "res_distance ?a = Finite 0 \<and> res_distance ?b = Finite 1 \<and>
       (0::real) \<le> 0 \<and> (0::real) \<le> 1 \<and> (1::real) \<le> 2 powr 128 \<longrightarrow>
       res_similarity ?a = Finite (round_real (1 / round_real (1 + 0))) \<and>
       res_similarity ?b = Finite (round_real (1 / round_real (1 + 1))) \<and>
       round_real (1 / round_real (1 + 1)) \<le> round_real (1 / round_real (1 + 0)) \<and>
       0 < round_real (1 / round_real (1 + 1)) \<and>
       round_real (1 / round_real (1 + 0)) \<le> 1 \<and>
       \<bar>round_real (1 / round_real (1 + 0)) * (1 + 0) - 1\<bar> \<le> 2 powr (- 51)"
    by (elim ballE [of _ _ ?a] ballE [of _ _ ?b] allE [of _ 0] allE [of _ 1]) simp_all
  with le have m: "round_real (1 / round_real (1 + 1)) \<le> round_real (1 / round_real (1 + 0)) \<and>
       0 < round_real (1 / round_real (1 + 1)) \<and>
       round_real (1 / round_real (1 + 0)) \<le> 1 \<and>
       \<bar>round_real (1 / round_real (1 + 0)) * (1 + 0) - 1\<bar> \<le> 2 powr (- 51)"
    by simp
  from s have "similarity (Finite 0) = Inr (Finite 1) \<and> similarity (Finite 1) = Inr (Finite (1 / 2))"
    by simp
  with R m le show ?thesis by simp
qed

end
